theory Spec2Isabelle
  imports Main "HOL-Library.Multiset" "HOL-Library.Option_ord"
begin

section \<open>Python values that reach the search handler\<close>

text \<open>
  The body of \<^verbatim>\<open>POST /api/search\<close> is a JSON object, which Flask hands to the handler
  as a Python dict. The values modelled are the JSON scalars: null, booleans, integers and
  strings. Arrays, objects and non-integral numbers are outside this model. A text is a
  list of characters; nothing below depends on how they are encoded.
\<close>

datatype pyval = PNone | PBool bool | PInt int | PStr string

text \<open>Python truthiness, as \<^verbatim>\<open>if query:\<close> tests it.\<close>

fun truthy :: "pyval \<Rightarrow> bool" where
  "truthy PNone = False"
| "truthy (PBool b) = b"
| "truthy (PInt i) = (i \<noteq> 0)"
| "truthy (PStr s) = (s \<noteq> [])"

text \<open>\<^verbatim>\<open>str(x)\<close>, which an f-string applies to the value it formats.\<close>

definition digit_char :: "nat \<Rightarrow> char" where
  "digit_char d = ''0123456789'' ! d"

function digits :: "nat \<Rightarrow> string" where
  "digits n = (if n < 10 then [digit_char n] else digits (n div 10) @ [digit_char (n mod 10)])"
  by pat_completeness auto
termination
  by (relation "measure (\<lambda>n. n)") auto

declare digits.simps [simp del]

definition str_int :: "int \<Rightarrow> string" where
  "str_int i = (if i < 0 then CHR ''-'' # digits (nat (- i)) else digits (nat i))"

fun py_str :: "pyval \<Rightarrow> string" where
  "py_str PNone = ''None''"
| "py_str (PBool b) = (if b then ''True'' else ''False'')"
| "py_str (PInt i) = str_int i"
| "py_str (PStr s) = s"

text \<open>\<^verbatim>\<open>dict.get(key, default)\<close>; \<^verbatim>\<open>dict.get(key)\<close> has the default \<^verbatim>\<open>None\<close>.\<close>

definition dict_get :: "(string \<rightharpoonup> pyval) \<Rightarrow> string \<Rightarrow> pyval \<Rightarrow> pyval" where
  "dict_get d k dflt = (case d k of None \<Rightarrow> dflt | Some v \<Rightarrow> v)"

section \<open>The query builder of \<^verbatim>\<open>search_emails\<close>\<close>

text \<open>The four condition texts, character by character as the source has them. The first
  is a triple-quoted literal: it starts and ends with a line break and keeps the
  indentation of the source lines.\<close>

definition nl :: char where
  "nl = CHR 0x0A"

definition query_condition :: string where
  "query_condition =
     nl # ''                (subject ILIKE %s OR'' @
     nl # ''                 sender_email ILIKE %s OR'' @
     nl # ''                 recipient_email ILIKE %s)'' @
     nl # ''            ''"

definition date_from_condition :: string where
  "date_from_condition = ''sent_date >= %s''"

definition date_to_condition :: string where
  "date_to_condition = ''sent_date <= %s''"

definition classification_condition :: string where
  "classification_condition = ''classification = %s''"

text \<open>\<^verbatim>\<open>sep.join(xs)\<close>.\<close>

fun join :: "string \<Rightarrow> string list \<Rightarrow> string" where
  "join sep [] = []"
| "join sep [x] = x"
| "join sep (x # y # ys) = x @ sep @ join sep (y # ys)"

text \<open>\<^verbatim>\<open>f'%{query}%'\<close>.\<close>

definition like_pattern :: "pyval \<Rightarrow> pyval" where
  "like_pattern query = PStr (CHR ''%'' # py_str query @ ''%'')"

text \<open>The state of the builder: the two lists \<^verbatim>\<open>where_conditions\<close> and \<^verbatim>\<open>params\<close>,
  which the four \<^verbatim>\<open>if\<close> statements extend in turn.\<close>

type_synonym builder = "string list \<times> pyval list"

definition add_query :: "pyval \<Rightarrow> builder \<Rightarrow> builder" where
  "add_query query b =
     (if truthy query
      then (fst b @ [query_condition],
            snd b @ [like_pattern query, like_pattern query, like_pattern query])
      else b)"

definition add_date_from :: "pyval \<Rightarrow> builder \<Rightarrow> builder" where
  "add_date_from date_from b =
     (if truthy date_from then (fst b @ [date_from_condition], snd b @ [date_from]) else b)"

definition add_date_to :: "pyval \<Rightarrow> builder \<Rightarrow> builder" where
  "add_date_to date_to b =
     (if truthy date_to then (fst b @ [date_to_condition], snd b @ [date_to]) else b)"

definition add_classification :: "pyval \<Rightarrow> builder \<Rightarrow> builder" where
  "add_classification classification b =
     (if truthy classification \<and> classification \<noteq> PStr ''all''
      then (fst b @ [classification_condition], snd b @ [classification])
      else b)"

definition build_conditions :: "pyval \<Rightarrow> pyval \<Rightarrow> pyval \<Rightarrow> pyval \<Rightarrow> builder" where
  "build_conditions query date_from date_to classification =
     add_classification classification
       (add_date_to date_to (add_date_from date_from (add_query query ([], []))))"

definition where_clause :: "string list \<Rightarrow> string" where
  "where_clause where_conditions =
     (if where_conditions \<noteq> [] then '' WHERE '' @ join '' AND '' where_conditions else [])"

text \<open>The filters as the handler reads them from the request dict.\<close>

definition get_query :: "(string \<rightharpoonup> pyval) \<Rightarrow> pyval" where
  "get_query data = dict_get data ''query'' (PStr [])"

definition get_date_from :: "(string \<rightharpoonup> pyval) \<Rightarrow> pyval" where
  "get_date_from data = dict_get data ''date_from'' PNone"

definition get_date_to :: "(string \<rightharpoonup> pyval) \<Rightarrow> pyval" where
  "get_date_to data = dict_get data ''date_to'' PNone"

definition get_classification :: "(string \<rightharpoonup> pyval) \<Rightarrow> pyval" where
  "get_classification data = dict_get data ''classification'' PNone"

definition build_where :: "(string \<rightharpoonup> pyval) \<Rightarrow> string \<times> pyval list" where
  "build_where data =
     (let b = build_conditions (get_query data) (get_date_from data) (get_date_to data)
                (get_classification data)
      in (where_clause (fst b), snd b))"

section \<open>Positional placeholders\<close>

text \<open>The driver substitutes the parameters for the \<^verbatim>\<open>%s\<close> markers of the statement text,
  from left to right. \<^verbatim>\<open>count_placeholders\<close> counts the markers in a text.\<close>

fun count_placeholders :: "string \<Rightarrow> nat" where
  "count_placeholders [] = 0"
| "count_placeholders [c] = 0"
| "count_placeholders (c # d # cs) =
     (if c = CHR ''%'' \<and> d = CHR ''s'' then Suc (count_placeholders cs)
      else count_placeholders (d # cs))"

text \<open>The words of a statement text: runs of characters between blanks and line breaks,
  with each parenthesis a word of its own.\<close>

definition is_space :: "char \<Rightarrow> bool" where
  "is_space c = (c = CHR '' '' \<or> c = nl)"

definition flush :: "string \<Rightarrow> string list" where
  "flush cur = (if cur = [] then [] else [cur])"

fun tokenize_from :: "string \<Rightarrow> string \<Rightarrow> string list" where
  "tokenize_from cur [] = flush cur"
| "tokenize_from cur (c # cs) =
     (if is_space c then flush cur @ tokenize_from [] cs
      else if c = CHR ''('' \<or> c = CHR '')'' then flush cur @ [c] # tokenize_from [] cs
      else tokenize_from (cur @ [c]) cs)"

definition tokenize :: "string \<Rightarrow> string list" where
  "tokenize s = tokenize_from [] s"

text \<open>The site of a placeholder: the column and the operator written before it.\<close>

fun placeholder_sites :: "string list \<Rightarrow> (string \<times> string) list" where
  "placeholder_sites (a # b # c # rest) =
     (if c = ''%s'' then (a, b) # placeholder_sites rest else placeholder_sites (b # c # rest))"
| "placeholder_sites [a, b] = []"
| "placeholder_sites [a] = []"
| "placeholder_sites [] = []"

text \<open>The three sites of the query condition.\<close>

definition query_sites :: "(string \<times> string) list" where
  "query_sites =
     [(''subject'', ''ILIKE''), (''sender_email'', ''ILIKE''), (''recipient_email'', ''ILIKE'')]"

text \<open>The value the specification binds at a site: the wildcard-wrapped query at every
  \<^verbatim>\<open>ILIKE\<close>, the lower bound at \<^verbatim>\<open>sent_date >=\<close>, the upper bound at
  \<^verbatim>\<open>sent_date <=\<close>, the label at \<^verbatim>\<open>classification =\<close>.\<close>

definition intended_param :: "(string \<rightharpoonup> pyval) \<Rightarrow> string \<times> string \<Rightarrow> pyval option" where
  "intended_param data site =
     (if snd site = ''ILIKE'' \<and> fst site \<in> set [''subject'', ''sender_email'', ''recipient_email'']
        then Some (like_pattern (get_query data))
      else if site = (''sent_date'', ''>='') then Some (get_date_from data)
      else if site = (''sent_date'', ''<='') then Some (get_date_to data)
      else if site = (''classification'', ''='') then Some (get_classification data)
      else None)"

section \<open>The database\<close>

text \<open>
  The relational engine is an external collaborator. Its state is modelled as far as the
  program reads or writes it: the four tables with the columns some statement of the
  program names, the \<^verbatim>\<open>SERIAL\<close> counters and the index names. Columns that only the
  engine's defaults fill and no statement reads (\<^verbatim>\<open>received_date\<close>, \<^verbatim>\<open>attachment_count\<close>,
  \<^verbatim>\<open>email_hash\<close>, \<^verbatim>\<open>retention_date\<close>, \<^verbatim>\<open>is_confidential\<close>, \<^verbatim>\<open>created_at\<close>, \<^verbatim>\<open>updated_at\<close>,
  \<^verbatim>\<open>user_ip\<close>, \<^verbatim>\<open>action_timestamp\<close>, \<^verbatim>\<open>request_date\<close>, \<^verbatim>\<open>assigned_to\<close>) are left out.
  A nullable column is an \<open>option\<close>. A timestamp is the engine's instant, an integer
  (microseconds since the epoch).
\<close>

type_synonym timestamp = int

record email_metadata =
  em_id :: int
  em_message_id :: string
  em_sender_email :: string
  em_sender_name :: "string option"
  em_recipient_email :: string
  em_subject :: "string option"
  em_sent_date :: "timestamp option"
  em_minio_bucket :: string
  em_minio_object_key :: string
  em_file_size_bytes :: "int option"
  em_has_attachments :: "bool option"
  em_classification :: "string option"
  em_zaak_id :: "string option"

text \<open>A \<^verbatim>\<open>JSONB\<close> document, as the engine stores the text it is given.\<close>

datatype json = JNull | JBool bool | JInt int | JStr string | JObj "(string \<times> json) list"

record email_audit_log =
  al_id :: int
  al_email_id :: "int option"
  al_action :: string
  al_user_id :: string
  al_details :: "json option"

text \<open>\<^verbatim>\<open>due_date\<close> is a \<^verbatim>\<open>DATE\<close>, kept here as its ISO text.\<close>

record woo_requests =
  wr_id :: int
  wr_request_id :: string
  wr_requester_name :: "string option"
  wr_requester_email :: "string option"
  wr_request_description :: "string option"
  wr_search_terms :: "string option"
  wr_due_date :: "string option"
  wr_status :: "string option"

record woo_email_matches =
  wm_id :: int
  wm_woo_request_id :: "int option"
  wm_email_id :: "int option"

text \<open>A table: its rows in insertion order, and the next value of its \<^verbatim>\<open>SERIAL\<close> sequence.\<close>

record 'r table =
  rows :: "'r list"
  next_id :: int

text \<open>A table that does not exist is \<open>None\<close>.\<close>

record database =
  t_email_metadata :: "email_metadata table option"
  t_email_audit_log :: "email_audit_log table option"
  t_woo_requests :: "woo_requests table option"
  t_woo_email_matches :: "woo_email_matches table option"
  indexes :: "string list"

text \<open>The exceptions the program can meet, by their Python class. \<open>Unmodelled\<close> is no
  exception: it marks a statement outside the fragment of SQL interpreted below, which no
  statement built by the program is.\<close>

datatype exn =
    OperationalError
  | ProgrammingError
  | DataError
  | IntegrityError
  | IndexError
  | TypeError
  | ValueError
  | OverflowError
  | AttributeError
  | Unmodelled

text \<open>
  Two operations of the engine are parameters of the model: the \<^verbatim>\<open>ILIKE\<close> operator
  (\<open>ilike eng text pattern\<close>) and the input conversion of \<^verbatim>\<open>TIMESTAMP WITH TIME ZONE\<close>,
  which fails on a text that is no timestamp.
\<close>

record engine =
  ilike :: "string \<Rightarrow> string \<Rightarrow> bool"
  timestamptz_in :: "string \<Rightarrow> timestamp option"

section \<open>The engine on a \<^verbatim>\<open>WHERE\<close> clause\<close>

text \<open>SQL's three-valued logic: \<open>None\<close> is \<^verbatim>\<open>NULL\<close>.\<close>

fun or3 :: "bool option \<Rightarrow> bool option \<Rightarrow> bool option" where
  "or3 (Some True) b = Some True"
| "or3 a (Some True) = Some True"
| "or3 (Some False) (Some False) = Some False"
| "or3 a b = None"

fun and3 :: "bool option \<Rightarrow> bool option \<Rightarrow> bool option" where
  "and3 (Some False) b = Some False"
| "and3 a (Some False) = Some False"
| "and3 (Some True) (Some True) = Some True"
| "and3 a b = None"

text \<open>
  The clause is read from its text. The fragment: \<^verbatim>\<open>WHERE\<close>, then conditions joined by
  \<^verbatim>\<open>AND\<close>; a condition is one comparison, or comparisons joined by \<^verbatim>\<open>OR\<close> inside
  parentheses; a comparison is a column, an operator and a placeholder.
\<close>

fun split_on :: "'a \<Rightarrow> 'a list \<Rightarrow> 'a list list" where
  "split_on sep [] = [[]]"
| "split_on sep (x # xs) =
     (let r = split_on sep xs in if x = sep then [] # r else (x # hd r) # tl r)"

fun parse_atom :: "string list \<Rightarrow> (string \<times> string) option" where
  "parse_atom [col, opr, ph] = (if ph = ''%s'' then Some (col, opr) else None)"
| "parse_atom ts = None"

definition parse_disj :: "string list \<Rightarrow> (string \<times> string) list option" where
  "parse_disj ts =
     (case ts of
        [] \<Rightarrow> None
      | t # r \<Rightarrow>
          if t = ''('' then
            (if r \<noteq> [] \<and> last r = '')''
             then those (map parse_atom (split_on ''OR'' (butlast r)))
             else None)
          else map_option (\<lambda>a. [a]) (parse_atom ts))"

definition parse_where :: "string list \<Rightarrow> (string \<times> string) list list option" where
  "parse_where ts =
     (case ts of
        [] \<Rightarrow> Some []
      | t # r \<Rightarrow> if t = ''WHERE'' then those (map parse_disj (split_on ''AND'' r)) else None)"

text \<open>The text columns of \<^verbatim>\<open>email_metadata\<close>.\<close>

definition text_column :: "string \<Rightarrow> (email_metadata \<Rightarrow> string option) option" where
  "text_column col =
     (if col = ''message_id'' then Some (\<lambda>r. Some (em_message_id r))
      else if col = ''sender_email'' then Some (\<lambda>r. Some (em_sender_email r))
      else if col = ''sender_name'' then Some em_sender_name
      else if col = ''recipient_email'' then Some (\<lambda>r. Some (em_recipient_email r))
      else if col = ''subject'' then Some em_subject
      else if col = ''minio_bucket'' then Some (\<lambda>r. Some (em_minio_bucket r))
      else if col = ''minio_object_key'' then Some (\<lambda>r. Some (em_minio_object_key r))
      else if col = ''classification'' then Some em_classification
      else if col = ''zaak_id'' then Some em_zaak_id
      else None)"

text \<open>
  One comparison with its parameter bound. A \<^verbatim>\<open>NULL\<close> operand gives \<^verbatim>\<open>NULL\<close>. A parameter
  of the wrong type has no operator (\<open>ProgrammingError\<close>); a text that is no timestamp is
  a \<open>DataError\<close>.
\<close>

definition bind_atom ::
  "engine \<Rightarrow> string \<times> string \<Rightarrow> pyval \<Rightarrow> exn + (email_metadata \<Rightarrow> bool option)" where
  "bind_atom eng site p =
     (let col = fst site; opr = snd site in
      if opr = ''ILIKE'' then
        (case text_column col of
           None \<Rightarrow> Inl Unmodelled
         | Some f \<Rightarrow>
             (case p of
                PStr pat \<Rightarrow> Inr (\<lambda>r. map_option (\<lambda>t. ilike eng t pat) (f r))
              | PNone \<Rightarrow> Inr (\<lambda>r. None)
              | _ \<Rightarrow> Inl ProgrammingError))
      else if col = ''sent_date'' \<and> (opr = ''>='' \<or> opr = ''<='') then
        (case p of
           PStr s \<Rightarrow>
             (case timestamptz_in eng s of
                None \<Rightarrow> Inl DataError
              | Some t \<Rightarrow>
                  Inr (\<lambda>r. map_option (\<lambda>d. if opr = ''>='' then t \<le> d else d \<le> t)
                             (em_sent_date r)))
         | PNone \<Rightarrow> Inr (\<lambda>r. None)
         | _ \<Rightarrow> Inl ProgrammingError)
      else if col = ''classification'' \<and> opr = ''='' then
        (case p of
           PStr s \<Rightarrow> Inr (\<lambda>r. map_option (\<lambda>c. c = s) (em_classification r))
         | PNone \<Rightarrow> Inr (\<lambda>r. None)
         | _ \<Rightarrow> Inl ProgrammingError)
      else Inl Unmodelled)"

text \<open>Binding is positional: each comparison takes the next parameter of the list.\<close>

fun bind_disj ::
  "engine \<Rightarrow> (string \<times> string) list \<Rightarrow> pyval list
     \<Rightarrow> exn + ((email_metadata \<Rightarrow> bool option) \<times> pyval list)" where
  "bind_disj eng [] ps = Inr (\<lambda>r. Some False, ps)"
| "bind_disj eng (a # as) [] = Inl IndexError"
| "bind_disj eng (a # as) (p # ps) =
     (case bind_atom eng a p of
        Inl e \<Rightarrow> Inl e
      | Inr f \<Rightarrow>
          (case bind_disj eng as ps of
             Inl e \<Rightarrow> Inl e
           | Inr (g, rest) \<Rightarrow> Inr (\<lambda>r. or3 (f r) (g r), rest)))"

fun bind_conj ::
  "engine \<Rightarrow> (string \<times> string) list list \<Rightarrow> pyval list
     \<Rightarrow> exn + ((email_metadata \<Rightarrow> bool option) \<times> pyval list)" where
  "bind_conj eng [] ps = Inr (\<lambda>r. Some True, ps)"
| "bind_conj eng (d # ds) ps =
     (case bind_disj eng d ps of
        Inl e \<Rightarrow> Inl e
      | Inr (f, ps') \<Rightarrow>
          (case bind_conj eng ds ps' of
             Inl e \<Rightarrow> Inl e
           | Inr (g, rest) \<Rightarrow> Inr (\<lambda>r. and3 (f r) (g r), rest)))"

text \<open>
  The driver quotes each parameter and fills the placeholders before the engine sees the
  statement. A text with a NUL character cannot be quoted (\<open>ValueError\<close>); too few
  parameters is an \<open>IndexError\<close>, too many a \<open>TypeError\<close>.
\<close>

fun has_nul :: "pyval \<Rightarrow> bool" where
  "has_nul (PStr s) = (CHR 0x00 \<in> set s)"
| "has_nul v = False"

definition adapt_error :: "pyval list \<Rightarrow> exn option" where
  "adapt_error ps = (if list_ex has_nul ps then Some ValueError else None)"

definition fill_placeholders :: "string \<Rightarrow> pyval list \<Rightarrow> exn option" where
  "fill_placeholders sql ps =
     (if length ps < count_placeholders sql then Some IndexError
      else if count_placeholders sql < length ps then Some TypeError
      else None)"

text \<open>The clause with its parameters, as a predicate on rows.\<close>

definition bind_where ::
  "engine \<Rightarrow> string \<Rightarrow> pyval list \<Rightarrow> exn + (email_metadata \<Rightarrow> bool option)" where
  "bind_where eng clause ps =
     (case parse_where (tokenize clause) of
        None \<Rightarrow> Inl Unmodelled
      | Some ds \<Rightarrow>
          (case bind_conj eng ds ps of
             Inl e \<Rightarrow> Inl e
           | Inr (f, rest) \<Rightarrow> if rest = [] then Inr f else Inl TypeError))"

section \<open>The \<^verbatim>\<open>SELECT\<close> of the search\<close>

text \<open>The eleven columns of the select list.\<close>

record search_row =
  sr_id :: int
  sr_message_id :: string
  sr_sender_email :: string
  sr_sender_name :: "string option"
  sr_recipient_email :: string
  sr_subject :: "string option"
  sr_sent_date :: "timestamp option"
  sr_classification :: "string option"
  sr_zaak_id :: "string option"
  sr_has_attachments :: "bool option"
  sr_file_size_bytes :: "int option"

definition select_list :: "email_metadata \<Rightarrow> search_row" where
  "select_list r =
     \<lparr>sr_id = em_id r, sr_message_id = em_message_id r, sr_sender_email = em_sender_email r,
      sr_sender_name = em_sender_name r, sr_recipient_email = em_recipient_email r,
      sr_subject = em_subject r, sr_sent_date = em_sent_date r,
      sr_classification = em_classification r, sr_zaak_id = em_zaak_id r,
      sr_has_attachments = em_has_attachments r, sr_file_size_bytes = em_file_size_bytes r\<rparr>"

text \<open>
  \<^verbatim>\<open>ORDER BY sent_date DESC\<close>: later instants first, and \<^verbatim>\<open>NULL\<close> before every instant
  (the engine's default for a descending key). Rows with equal keys come in an order the
  engine does not fix; the model keeps their table order.
\<close>

definition desc_key :: "timestamp option \<Rightarrow> timestamp option" where
  "desc_key d = map_option uminus d"

definition order_by_sent_date_desc :: "email_metadata list \<Rightarrow> email_metadata list" where
  "order_by_sent_date_desc rs = sort_key (\<lambda>r. desc_key (em_sent_date r)) rs"

definition search_limit :: nat where
  "search_limit = 50"

text \<open>\<^verbatim>\<open>cursor.execute(query_sql, params)\<close> and \<^verbatim>\<open>cursor.fetchall()\<close>. The select list, the
  table, the ordering and the limit are fixed text of the statement, with no placeholder
  in it; only the clause varies.\<close>

definition select_emails ::
  "engine \<Rightarrow> database \<Rightarrow> string \<Rightarrow> pyval list \<Rightarrow> exn + search_row list" where
  "select_emails eng db clause ps =
     (case adapt_error ps of
        Some e \<Rightarrow> Inl e
      | None \<Rightarrow>
          (case fill_placeholders clause ps of
             Some e \<Rightarrow> Inl e
           | None \<Rightarrow>
               (case t_email_metadata db of
                  None \<Rightarrow> Inl ProgrammingError
                | Some t \<Rightarrow>
                    (case bind_where eng clause ps of
                       Inl e \<Rightarrow> Inl e
                     | Inr f \<Rightarrow>
                         Inr (map select_list
                                (take search_limit
                                   (order_by_sent_date_desc
                                      (filter (\<lambda>r. f r = Some True) (rows t)))))))))"

section \<open>Transactions\<close>

text \<open>
  A statement runs on the state its transaction has reached and returns the state it
  leaves, with the exception it raised, if any. A transaction that does not commit is
  rolled back: when the connection goes back to the pool, or is closed. The rollback
  restores every table and index; a sequence is not transactional, so a table that
  existed before keeps the counter the transaction reached.
\<close>

type_synonym statement = "database \<Rightarrow> exn option \<times> database"

definition keep_sequence :: "'r table option \<Rightarrow> 'r table option \<Rightarrow> 'r table option" where
  "keep_sequence start reached =
     (case start of
        None \<Rightarrow> None
      | Some t \<Rightarrow> (case reached of None \<Rightarrow> Some t | Some u \<Rightarrow> Some (t\<lparr>next_id := next_id u\<rparr>)))"

definition rollback :: "database \<Rightarrow> database \<Rightarrow> database" where
  "rollback start reached =
     \<lparr>t_email_metadata = keep_sequence (t_email_metadata start) (t_email_metadata reached),
      t_email_audit_log = keep_sequence (t_email_audit_log start) (t_email_audit_log reached),
      t_woo_requests = keep_sequence (t_woo_requests start) (t_woo_requests reached),
      t_woo_email_matches =
        keep_sequence (t_woo_email_matches start) (t_woo_email_matches reached),
      indexes = indexes start\<rparr>"

definition and_then :: "exn option \<times> database \<Rightarrow> statement \<Rightarrow> exn option \<times> database" where
  "and_then r f = (case fst r of Some e \<Rightarrow> r | None \<Rightarrow> f (snd r))"

text \<open>
  The driver or the engine can fail a statement for a reason outside the data modelled:
  the connection is lost, the statement is cancelled, a lock is not granted, the disk is
  full. \<open>fault\<close> is the exception a statement meets so, if any; the statement then
  changes nothing.
\<close>

definition execute :: "exn option \<Rightarrow> statement \<Rightarrow> statement" where
  "execute fault st db = (case fault of Some e \<Rightarrow> (Some e, db) | None \<Rightarrow> st db)"

text \<open>
  A \<^verbatim>\<open>for\<close> loop that executes one statement per element; an exception ends it. The
  statement of the element at position \<open>i\<close> meets the fault \<open>fault i\<close>.
\<close>

fun for_each :: "(nat \<Rightarrow> exn option) \<Rightarrow> ('a \<Rightarrow> statement) \<Rightarrow> nat \<Rightarrow> 'a list \<Rightarrow> statement" where
  "for_each fault f i [] db = (None, db)"
| "for_each fault f i (x # xs) db =
     and_then (execute (fault i) (f x) db) (for_each fault f (Suc i) xs)"

text \<open>The rows of a table, none when it does not exist.\<close>

definition table_rows :: "'r table option \<Rightarrow> 'r list" where
  "table_rows t = (case t of None \<Rightarrow> [] | Some u \<Rightarrow> rows u)"

text \<open>
  \<^verbatim>\<open>INSERT INTO email_audit_log (email_id, action, user_id, details)\<close>. The row takes the
  next value of the sequence as its key. The key is unique and \<^verbatim>\<open>email_id\<close>, unless it is
  \<^verbatim>\<open>NULL\<close>, references a row of \<^verbatim>\<open>email_metadata\<close>: a violation is an \<open>IntegrityError\<close>,
  raised after the sequence has advanced.
\<close>

definition insert_email_audit_log :: "int option \<times> string \<times> string \<times> json \<Rightarrow> statement" where
  "insert_email_audit_log v db =
     (case v of (email_id, action, user_id, details) \<Rightarrow>
        (case t_email_audit_log db of
           None \<Rightarrow> (Some ProgrammingError, db)
         | Some t \<Rightarrow>
             if next_id t \<in> set (map al_id (rows t))
                \<or> (case email_id of
                      None \<Rightarrow> False
                    | Some i \<Rightarrow> i \<notin> set (map em_id (table_rows (t_email_metadata db))))
             then (Some IntegrityError,
                   db\<lparr>t_email_audit_log := Some (t\<lparr>next_id := next_id t + 1\<rparr>)\<rparr>)
             else (None,
                   db\<lparr>t_email_audit_log :=
                        Some \<lparr>rows = rows t @
                                [\<lparr>al_id = next_id t, al_email_id = email_id, al_action = action,
                                  al_user_id = user_id, al_details = Some details\<rparr>],
                              next_id = next_id t + 1\<rparr>\<rparr>)))"

section \<open>The handler \<^verbatim>\<open>search_emails\<close>\<close>

text \<open>
  What the request meets outside the data modelled. \<^verbatim>\<open>get_db_connection()\<close> and
  \<^verbatim>\<open>conn.commit()\<close> each succeed or raise. The driver or the engine can also fail a
  statement for a reason of its own (the connection is lost, the statement is cancelled,
  a fetched value cannot be built): \<open>select_error\<close> is such an exception of
  \<^verbatim>\<open>cursor.execute(query_sql, params)\<close> or \<^verbatim>\<open>cursor.fetchall()\<close>, \<open>insert_error\<close> of the
  \<^verbatim>\<open>INSERT\<close>. A statement that fails so changes nothing.
\<close>

record faults =
  connect_error :: "exn option"
  select_error :: "exn option"
  insert_error :: "exn option"
  commit_error :: "exn option"

text \<open>The two responses: \<^verbatim>\<open>{results, total}\<close> with status 200, and \<^verbatim>\<open>{error}\<close> with
  status 500.\<close>

datatype response = Ok200 "search_row list" nat | Error500 exn

text \<open>The \<^verbatim>\<open>total\<close> field of a response, when it has one.\<close>

fun total_of :: "response \<Rightarrow> nat option" where
  "total_of (Ok200 results n) = Some n"
| "total_of (Error500 e) = None"

text \<open>\<^verbatim>\<open>json.dumps({'query': query, 'results_count': len(results)})\<close>, as the document the
  \<^verbatim>\<open>JSONB\<close> column stores.\<close>

fun json_of :: "pyval \<Rightarrow> json" where
  "json_of PNone = JNull"
| "json_of (PBool b) = JBool b"
| "json_of (PInt i) = JInt i"
| "json_of (PStr s) = JStr s"

definition audit_details :: "pyval \<Rightarrow> nat \<Rightarrow> json" where
  "audit_details query results_count =
     JObj [(''query'', json_of query), (''results_count'', JInt (int results_count))]"

text \<open>
  \<^verbatim>\<open>jsonify\<close> writes a timestamp as an HTTP date, for which it converts it to UTC. The
  driver delivers \<^verbatim>\<open>sent_date\<close> in the time zone of the session, so a value it could build
  there can lie outside the years 1 to 9999 in UTC: the conversion then raises
  \<open>OverflowError\<close>. The other selected columns (numbers, texts, booleans, \<^verbatim>\<open>NULL\<close>) are
  written as they are.
\<close>

definition datetime_min :: timestamp where
  "datetime_min = - 62135596800000000"

definition datetime_max :: timestamp where
  "datetime_max = 253402300799999999"

definition utc_overflow :: "search_row \<Rightarrow> bool" where
  "utc_overflow r =
     (case sr_sent_date r of None \<Rightarrow> False | Some t \<Rightarrow> t < datetime_min \<or> datetime_max < t)"

definition jsonify_error :: "search_row list \<Rightarrow> exn option" where
  "jsonify_error results = (if list_ex utc_overflow results then Some OverflowError else None)"

text \<open>
  The handler on a database state. The body is \<open>None\<close> when the request carries no JSON
  object: then \<^verbatim>\<open>request.json\<close> or \<^verbatim>\<open>data.get\<close> raises before any statement runs. Every
  exception is caught and answered with status 500. Up to the commit, the connection is
  then given back without a commit. The response is built after the commit, inside the
  same \<^verbatim>\<open>try\<close>: an exception there is answered with status 500 as well, and the audit
  row stays committed.
\<close>

definition search_emails ::
  "engine \<Rightarrow> faults \<Rightarrow> database \<Rightarrow> (string \<rightharpoonup> pyval) option \<Rightarrow> response \<times> database" where
  "search_emails eng flt db body =
     (case body of
        None \<Rightarrow> (Error500 AttributeError, db)
      | Some data \<Rightarrow>
          let query = get_query data;
              date_from = get_date_from data;
              date_to = get_date_to data;
              classification = get_classification data
          in
          (case connect_error flt of
             Some e \<Rightarrow> (Error500 e, db)
           | None \<Rightarrow>
               let b = build_conditions query date_from date_to classification;
                   clause = where_clause (fst b);
                   params = snd b
               in
               (case select_error flt of
                  Some e \<Rightarrow> (Error500 e, db)
                | None \<Rightarrow>
                    (case select_emails eng db clause params of
                       Inl e \<Rightarrow> (Error500 e, db)
                     | Inr results \<Rightarrow>
                         (case insert_error flt of
                            Some e \<Rightarrow> (Error500 e, db)
                          | None \<Rightarrow>
                              (case insert_email_audit_log
                                      (None, ''search'', ''demo_user'',
                                       audit_details query (length results)) db of
                                 (Some e, reached) \<Rightarrow> (Error500 e, rollback db reached)
                               | (None, reached) \<Rightarrow>
                                   (case commit_error flt of
                                      Some e \<Rightarrow> (Error500 e, rollback db reached)
                                    | None \<Rightarrow>
                                        (case jsonify_error results of
                                           Some e \<Rightarrow> (Error500 e, reached)
                                         | None \<Rightarrow>
                                             (Ok200 results (length results),
                                              reached)))))))))"

section \<open>Schema setup: \<^verbatim>\<open>init_database\<close>\<close>

text \<open>\<^verbatim>\<open>CREATE TABLE IF NOT EXISTS\<close>: a new table is empty and its sequence starts at 1.\<close>

definition create_table_if_not_exists :: "'r table option \<Rightarrow> 'r table option" where
  "create_table_if_not_exists t =
     (case t of None \<Rightarrow> Some \<lparr>rows = [], next_id = 1\<rparr> | Some u \<Rightarrow> Some u)"

text \<open>The state the four statements leave, one after the other, when none raises.\<close>

definition create_tables :: "database \<Rightarrow> database" where
  "create_tables db =
     db\<lparr>t_email_metadata := create_table_if_not_exists (t_email_metadata db),
        t_email_audit_log := create_table_if_not_exists (t_email_audit_log db),
        t_woo_requests := create_table_if_not_exists (t_woo_requests db),
        t_woo_email_matches := create_table_if_not_exists (t_woo_email_matches db)\<rparr>"

text \<open>\<^verbatim>\<open>CREATE INDEX IF NOT EXISTS\<close>: an index of that name is left as it is.\<close>

definition create_index_if_not_exists :: "string \<Rightarrow> database \<Rightarrow> database" where
  "create_index_if_not_exists name db =
     (if name \<in> set (indexes db) then db else db\<lparr>indexes := indexes db @ [name]\<rparr>)"

text \<open>The state the three statements leave, one after the other, when none raises.\<close>

definition create_indexes :: "database \<Rightarrow> database" where
  "create_indexes db =
     create_index_if_not_exists ''idx_email_date''
       (create_index_if_not_exists ''idx_email_subject''
          (create_index_if_not_exists ''idx_email_sender'' db))"

text \<open>
  The tuples of \<^verbatim>\<open>sample_emails\<close>, in the column order of the \<^verbatim>\<open>INSERT\<close>: message_id,
  sender_email, sender_name, recipient_email, subject, sent_date, minio_bucket,
  minio_object_key, file_size_bytes, zaak_id, classification.
\<close>

type_synonym sample_email =
  "string \<times> string \<times> string \<times> string \<times> string \<times> string \<times> string \<times> string \<times> int \<times> string \<times> string"

definition sample_emails :: "sample_email list" where
  \<open>sample_emails =
     [(''demo-001@haarlem.nl'', ''j.doe@haarlem.nl'', ''John Doe'',
       ''["team@haarlem.nl", "manager@haarlem.nl"]'',
       ''Project update - DMS implementatie voortgang'', ''2024-01-15 10:30:00+01'',
       ''user-j-doe'', ''emails/2024/01/demo-001.eml'', 1024, ''ZAAK-2024-001'', ''intern''),
      (''demo-002@haarlem.nl'', ''burger@example.com'', ''Bezorgde Burger'',
       ''["info@haarlem.nl"]'',
       ''WOO verzoek - verkeerslichten en verkeersdata gemeente'', ''2024-01-16 14:20:00+01'',
       ''user-info'', ''emails/2024/01/demo-002.eml'', 2048, ''WOO-2024-002'', ''openbaar''),
      (''demo-003@haarlem.nl'', ''wethouder@haarlem.nl'', ''Wethouder Smith'',
       ''["griffie@haarlem.nl", "pers@haarlem.nl"]'',
       ''VERTROUWELIJK: Coalitieoverleg agenda en afspraken'', ''2024-01-17 09:15:00+01'',
       ''user-wethouder'', ''emails/2024/01/demo-003.eml'', 512, ''RAAD-2024-003'',
       ''vertrouwelijk''),
      (''demo-004@haarlem.nl'', ''projectleider@haarlem.nl'', ''Project Manager IT'',
       ''["cio@haarlem.nl"]'',
       ''MinIO implementatie - status update week 3'', ''2024-01-18 16:45:00+01'',
       ''user-projectleider'', ''emails/2024/01/demo-004.eml'', 856, ''PROJ-2024-004'',
       ''intern''),
      (''demo-005@haarlem.nl'', ''journalist@haarlemsdagblad.nl'', ''Journalist HD'',
       ''["woordvoering@haarlem.nl"]'',
       ''Vragen over digitalisering gemeente - deadline artikel'', ''2024-01-19 11:30:00+01'',
       ''user-woordvoering'', ''emails/2024/01/demo-005.eml'', 1500, ''PERS-2024-001'',
       ''openbaar'')]\<close>

text \<open>
  \<^verbatim>\<open>INSERT INTO email_metadata\<close> with the eleven columns; \<^verbatim>\<open>has_attachments\<close> takes its
  default. The engine converts the \<^verbatim>\<open>sent_date\<close> text when it reads the statement, before
  the sequence advances. The key and \<^verbatim>\<open>message_id\<close> are unique.
\<close>

definition insert_email_metadata :: "engine \<Rightarrow> sample_email \<Rightarrow> statement" where
  "insert_email_metadata eng v db =
     (case v of
        (message_id, sender_email, sender_name, recipient_email, subject, sent_date,
         minio_bucket, minio_object_key, file_size_bytes, zaak_id, classification) \<Rightarrow>
        (case t_email_metadata db of
           None \<Rightarrow> (Some ProgrammingError, db)
         | Some t \<Rightarrow>
             (case timestamptz_in eng sent_date of
                None \<Rightarrow> (Some DataError, db)
              | Some ts \<Rightarrow>
                  if next_id t \<in> set (map em_id (rows t))
                     \<or> message_id \<in> set (map em_message_id (rows t))
                  then (Some IntegrityError,
                        db\<lparr>t_email_metadata := Some (t\<lparr>next_id := next_id t + 1\<rparr>)\<rparr>)
                  else (None,
                        db\<lparr>t_email_metadata :=
                             Some \<lparr>rows = rows t @
                                     [\<lparr>em_id = next_id t, em_message_id = message_id,
                                       em_sender_email = sender_email,
                                       em_sender_name = Some sender_name,
                                       em_recipient_email = recipient_email,
                                       em_subject = Some subject, em_sent_date = Some ts,
                                       em_minio_bucket = minio_bucket,
                                       em_minio_object_key = minio_object_key,
                                       em_file_size_bytes = Some file_size_bytes,
                                       em_has_attachments = Some False,
                                       em_classification = Some classification,
                                       em_zaak_id = Some zaak_id\<rparr>],
                                   next_id = next_id t + 1\<rparr>\<rparr>))))"

text \<open>The sample request, in the column order of its \<^verbatim>\<open>INSERT\<close>: request_id,
  requester_name, requester_email, request_description, search_terms, due_date, status.\<close>

type_synonym sample_woo = "string \<times> string \<times> string \<times> string \<times> string \<times> string \<times> string"

definition sample_woo_request :: sample_woo where
  "sample_woo_request =
     (''WOO-2024-001'', ''Journalist Haarlems Dagblad'', ''journalist@haarlemsdagblad.nl'',
      ''Verzoek om alle emails betreffende DMS implementatie en digitalisering projecten'',
      ''DMS implementatie digitalisering'', ''2024-02-15'', ''processing'')"

definition insert_woo_requests :: "sample_woo \<Rightarrow> statement" where
  "insert_woo_requests v db =
     (case v of
        (request_id, requester_name, requester_email, request_description, search_terms,
         due_date, status) \<Rightarrow>
        (case t_woo_requests db of
           None \<Rightarrow> (Some ProgrammingError, db)
         | Some t \<Rightarrow>
             if next_id t \<in> set (map wr_id (rows t))
                \<or> request_id \<in> set (map wr_request_id (rows t))
             then (Some IntegrityError,
                   db\<lparr>t_woo_requests := Some (t\<lparr>next_id := next_id t + 1\<rparr>)\<rparr>)
             else (None,
                   db\<lparr>t_woo_requests :=
                        Some \<lparr>rows = rows t @
                                [\<lparr>wr_id = next_id t, wr_request_id = request_id,
                                  wr_requester_name = Some requester_name,
                                  wr_requester_email = Some requester_email,
                                  wr_request_description = Some request_description,
                                  wr_search_terms = Some search_terms,
                                  wr_due_date = Some due_date, wr_status = Some status\<rparr>],
                              next_id = next_id t + 1\<rparr>\<rparr>)))"

text \<open>The tuples of \<^verbatim>\<open>audit_logs\<close>; the last component is the document of the JSON text.\<close>

definition audit_logs :: "(int option \<times> string \<times> string \<times> json) list" where
  "audit_logs =
     [(Some 1, ''created'', ''system'',
       JObj [(''source'', JStr ''exchange_transport''), (''automated'', JBool True)]),
      (Some 2, ''created'', ''system'',
       JObj [(''source'', JStr ''external_email''), (''woo_relevant'', JBool True)]),
      (Some 3, ''created'', ''system'',
       JObj [(''source'', JStr ''internal_email''), (''classification'', JStr ''confidential'')]),
      (Some 4, ''created'', ''system'',
       JObj [(''source'', JStr ''project_email''), (''automated'', JBool True)]),
      (Some 5, ''created'', ''system'',
       JObj [(''source'', JStr ''external_email''), (''press_related'', JBool True)])]"

text \<open>
  The steps of one pass through the \<^verbatim>\<open>try\<close> block, in the order of the source:
  \<^verbatim>\<open>psycopg2.connect\<close>, the four \<^verbatim>\<open>CREATE TABLE\<close> statements, the three \<^verbatim>\<open>CREATE INDEX\<close>
  statements, \<^verbatim>\<open>SELECT COUNT(*)\<close> with its \<^verbatim>\<open>fetchone\<close>, the inserts of the sample data and
  \<^verbatim>\<open>conn.commit()\<close>. Statements of a kind are numbered from 0. What a pass meets from
  outside is the exception, if any, that each step raises there.
\<close>

datatype step =
    Connect
  | CreateTable nat
  | CreateIndex nat
  | SelectCount
  | InsertEmail nat
  | InsertRequest
  | InsertAudit nat
  | Commit

type_synonym step_faults = "step \<Rightarrow> exn option"

text \<open>The four \<^verbatim>\<open>CREATE TABLE IF NOT EXISTS\<close> statements, one \<^verbatim>\<open>cursor.execute\<close> each.\<close>

definition create_table_statements :: "statement list" where
  "create_table_statements =
     [\<lambda>db. (None, db\<lparr>t_email_metadata := create_table_if_not_exists (t_email_metadata db)\<rparr>),
      \<lambda>db. (None, db\<lparr>t_email_audit_log := create_table_if_not_exists (t_email_audit_log db)\<rparr>),
      \<lambda>db. (None, db\<lparr>t_woo_requests := create_table_if_not_exists (t_woo_requests db)\<rparr>),
      \<lambda>db. (None,
             db\<lparr>t_woo_email_matches := create_table_if_not_exists (t_woo_email_matches db)\<rparr>)]"

text \<open>The three \<^verbatim>\<open>CREATE INDEX IF NOT EXISTS\<close> statements, by the name of the index.\<close>

definition index_names :: "string list" where
  "index_names = [''idx_email_sender'', ''idx_email_subject'', ''idx_email_date'']"

definition create_index :: "string \<Rightarrow> statement" where
  "create_index name db = (None, create_index_if_not_exists name db)"

text \<open>The sample data: inserted when \<^verbatim>\<open>SELECT COUNT(*) FROM email_metadata\<close> is 0.\<close>

definition insert_sample_data :: "engine \<Rightarrow> step_faults \<Rightarrow> statement" where
  "insert_sample_data eng fault db =
     and_then
       (for_each (\<lambda>i. fault (InsertEmail i)) (insert_email_metadata eng) 0 sample_emails db)
       (\<lambda>db. and_then
                (execute (fault InsertRequest) (insert_woo_requests sample_woo_request) db)
                (for_each (\<lambda>i. fault (InsertAudit i)) insert_email_audit_log 0 audit_logs))"

text \<open>The statements between \<^verbatim>\<open>psycopg2.connect\<close> and \<^verbatim>\<open>conn.commit()\<close>.\<close>

definition init_statements :: "engine \<Rightarrow> step_faults \<Rightarrow> statement" where
  "init_statements eng fault db =
     and_then
       (for_each (\<lambda>i. fault (CreateTable i)) (\<lambda>st. st) 0 create_table_statements db)
       (\<lambda>db. and_then
                (for_each (\<lambda>i. fault (CreateIndex i)) create_index 0 index_names db)
                (\<lambda>db1.
                   (case fault SelectCount of
                      Some e \<Rightarrow> (Some e, db1)
                    | None \<Rightarrow>
                        let count = length (table_rows (t_email_metadata db1))
                        in if count = 0 then insert_sample_data eng fault db1
                           else (None, db1))))"

text \<open>
  One pass through the \<^verbatim>\<open>try\<close> block, from \<^verbatim>\<open>psycopg2.connect\<close> to \<^verbatim>\<open>conn.commit()\<close>. An
  exception of any step leaves the block, and the transaction uncommitted: the connection
  is dropped without a commit when the next pass binds \<^verbatim>\<open>conn\<close> anew or the process ends.
  After the commit, \<^verbatim>\<open>cursor.close()\<close> and \<^verbatim>\<open>conn.close()\<close> of a client-side cursor and its
  connection do not raise.
\<close>

definition try_block :: "engine \<Rightarrow> step_faults \<Rightarrow> statement" where
  "try_block eng fault db =
     (case fault Connect of
        Some e \<Rightarrow> (Some e, db)
      | None \<Rightarrow>
          (case init_statements eng fault db of
             (Some e, reached) \<Rightarrow> (Some e, rollback db reached)
           | (None, reached) \<Rightarrow>
               (case fault Commit of
                  Some e \<Rightarrow> (Some e, rollback db reached)
                | None \<Rightarrow> (None, reached))))"

definition max_retries :: nat where
  "max_retries = 30"

text \<open>
  The \<^verbatim>\<open>while\<close> loop. \<open>plan\<close> gives, for each pass, what its steps meet. The state of the
  loop: \<open>retry_count\<close>, the seconds slept so far (one entry per \<^verbatim>\<open>time.sleep\<close>) and the
  database. The handler \<^verbatim>\<open>except psycopg2.OperationalError\<close> guards the whole block: it
  catches an \<open>OperationalError\<close> of the connect and of every statement alike. The result
  is the exception raised or the value returned (\<open>Some True\<close>; \<open>None\<close> when the loop ends
  without a \<^verbatim>\<open>return\<close>).
\<close>

function init_loop ::
  "engine \<Rightarrow> (nat \<Rightarrow> step_faults) \<Rightarrow> nat \<Rightarrow> nat list \<Rightarrow> database
     \<Rightarrow> (exn + bool option) \<times> nat list \<times> database" where
  "init_loop eng plan retry_count slept db =
     (if retry_count < max_retries then
        (case try_block eng (plan retry_count) db of
           (None, db') \<Rightarrow> (Inr (Some True), slept, db')
         | (Some e, db') \<Rightarrow>
             if e = OperationalError then
               (if retry_count + 1 < max_retries
                then init_loop eng plan (retry_count + 1) (slept @ [2]) db'
                else (Inl e, slept, db'))
             else (Inl e, slept, db'))
      else (Inr None, slept, db))"
  by pat_completeness auto
termination
  by (relation "measure (\<lambda>(eng, plan, retry_count, slept, db). max_retries - retry_count)")
     auto

declare init_loop.simps [simp del]

definition init_database ::
  "engine \<Rightarrow> (nat \<Rightarrow> step_faults) \<Rightarrow> database \<Rightarrow> (exn + bool option) \<times> nat list \<times> database" where
  "init_database eng plan db = init_loop eng plan 0 [] db"

text \<open>The main block: \<^verbatim>\<open>init_database()\<close> is called outside any \<^verbatim>\<open>try\<close>, so an exception
  ends the process before \<^verbatim>\<open>app.run\<close>.\<close>

datatype process = Crashed exn | Serving

definition main :: "engine \<Rightarrow> (nat \<Rightarrow> step_faults) \<Rightarrow> database \<Rightarrow> process \<times> database" where
  "main eng plan db =
     (case init_database eng plan db of
        (Inl e, slept, db') \<Rightarrow> (Crashed e, db')
      | (Inr r, slept, db') \<Rightarrow> (Serving, db'))"

text \<open>
  The course of the loop, pass by pass: \<open>attempt_state\<close> is the database on which pass
  \<open>i\<close> starts when every pass before it has ended in an exception, \<open>attempt\<close> is what
  pass \<open>i\<close> does there.
\<close>

primrec attempt_state :: "engine \<Rightarrow> (nat \<Rightarrow> step_faults) \<Rightarrow> database \<Rightarrow> nat \<Rightarrow> database" where
  "attempt_state eng plan db 0 = db"
| "attempt_state eng plan db (Suc i) =
     snd (try_block eng (plan i) (attempt_state eng plan db i))"

definition attempt ::
  "engine \<Rightarrow> (nat \<Rightarrow> step_faults) \<Rightarrow> database \<Rightarrow> nat \<Rightarrow> exn option \<times> database" where
  "attempt eng plan db i = try_block eng (plan i) (attempt_state eng plan db i)"

text \<open>The schema is in place: the four tables and the three indexes exist.\<close>

definition schema_ready :: "database \<Rightarrow> bool" where
  "schema_ready db =
     (t_email_metadata db \<noteq> None \<and> t_email_audit_log db \<noteq> None
      \<and> t_woo_requests db \<noteq> None \<and> t_woo_email_matches db \<noteq> None
      \<and> ''idx_email_sender'' \<in> set (indexes db)
      \<and> ''idx_email_subject'' \<in> set (indexes db)
      \<and> ''idx_email_date'' \<in> set (indexes db))"

text \<open>Two states hold the same rows, table by table.\<close>

definition same_rows :: "database \<Rightarrow> database \<Rightarrow> bool" where
  "same_rows a b =
     (table_rows (t_email_metadata a) = table_rows (t_email_metadata b)
      \<and> table_rows (t_email_audit_log a) = table_rows (t_email_audit_log b)
      \<and> table_rows (t_woo_requests a) = table_rows (t_woo_requests b)
      \<and> table_rows (t_woo_email_matches a) = table_rows (t_woo_email_matches b))"

section \<open>What the specification says a search matches\<close>

text \<open>
  The meaning the specification gives to the filters, written from its words and
  independent of the statement text: the query matches \<^verbatim>\<open>%query%\<close> against the
  subject, the sender address or the recipient address; \<^verbatim>\<open>date_from\<close> and \<^verbatim>\<open>date_to\<close>
  are inclusive bounds on the sent timestamp; the classification is an exact match. A
  filter is applied when the handler's test of it succeeds. A \<^verbatim>\<open>NULL\<close> column matches
  nothing.
\<close>

definition query_matches :: "engine \<Rightarrow> pyval \<Rightarrow> email_metadata \<Rightarrow> bool" where
  "query_matches eng query r =
     (let pat = CHR ''%'' # py_str query @ ''%'' in
      (case em_subject r of None \<Rightarrow> False | Some s \<Rightarrow> ilike eng s pat)
      \<or> ilike eng (em_sender_email r) pat
      \<or> ilike eng (em_recipient_email r) pat)"

definition sent_on_or_after :: "engine \<Rightarrow> pyval \<Rightarrow> email_metadata \<Rightarrow> bool" where
  "sent_on_or_after eng date_from r =
     (case date_from of
        PStr s \<Rightarrow>
          (case timestamptz_in eng s of
             None \<Rightarrow> False
           | Some t \<Rightarrow> (case em_sent_date r of None \<Rightarrow> False | Some d \<Rightarrow> t \<le> d))
      | _ \<Rightarrow> False)"

definition sent_on_or_before :: "engine \<Rightarrow> pyval \<Rightarrow> email_metadata \<Rightarrow> bool" where
  "sent_on_or_before eng date_to r =
     (case date_to of
        PStr s \<Rightarrow>
          (case timestamptz_in eng s of
             None \<Rightarrow> False
           | Some t \<Rightarrow> (case em_sent_date r of None \<Rightarrow> False | Some d \<Rightarrow> d \<le> t))
      | _ \<Rightarrow> False)"

definition classified_as :: "pyval \<Rightarrow> email_metadata \<Rightarrow> bool" where
  "classified_as classification r =
     (case classification of PStr s \<Rightarrow> em_classification r = Some s | _ \<Rightarrow> False)"

definition classification_applies :: "pyval \<Rightarrow> bool" where
  "classification_applies classification =
     (truthy classification \<and> classification \<noteq> PStr ''all'')"

definition satisfies :: "engine \<Rightarrow> (string \<rightharpoonup> pyval) \<Rightarrow> email_metadata \<Rightarrow> bool" where
  "satisfies eng data r =
     ((if truthy (get_query data) then query_matches eng (get_query data) r else True)
      \<and> (if truthy (get_date_from data) then sent_on_or_after eng (get_date_from data) r
          else True)
      \<and> (if truthy (get_date_to data) then sent_on_or_before eng (get_date_to data) r
          else True)
      \<and> (if classification_applies (get_classification data)
          then classified_as (get_classification data) r else True))"

text \<open>The engine accepts the parameters of a request when each applied date is a text it
  reads as a timestamp and the applied classification is a text.\<close>

definition date_accepted :: "engine \<Rightarrow> pyval \<Rightarrow> bool" where
  "date_accepted eng d =
     (if truthy d then (case d of PStr s \<Rightarrow> timestamptz_in eng s \<noteq> None | _ \<Rightarrow> False)
      else True)"

definition classification_accepted :: "pyval \<Rightarrow> bool" where
  "classification_accepted c =
     (if classification_applies c then (case c of PStr s \<Rightarrow> True | _ \<Rightarrow> False) else True)"

definition accepted :: "engine \<Rightarrow> (string \<rightharpoonup> pyval) \<Rightarrow> bool" where
  "accepted eng data =
     (date_accepted eng (get_date_from data) \<and> date_accepted eng (get_date_to data)
      \<and> classification_accepted (get_classification data))"


section \<open>Concrete inputs\<close>

text \<open>
  An engine to run the examples with. Its \<^verbatim>\<open>ILIKE\<close> knows the wildcards \<^verbatim>\<open>%\<close> and \<^verbatim>\<open>_\<close>
  and folds the case of ASCII letters; its timestamp input reads the texts listed.
\<close>

definition ascii_lower :: "char \<Rightarrow> char" where
  "ascii_lower c =
     (case map_of (zip ''ABCDEFGHIJKLMNOPQRSTUVWXYZ'' ''abcdefghijklmnopqrstuvwxyz'') c of
        None \<Rightarrow> c
      | Some l \<Rightarrow> l)"

fun like_match :: "string \<Rightarrow> string \<Rightarrow> bool" where
  "like_match [] t = (t = [])"
| "like_match (p # ps) [] = (p = CHR ''%'' \<and> like_match ps [])"
| "like_match (p # ps) (c # cs) =
     (if p = CHR ''%'' then like_match ps (c # cs) \<or> like_match (p # ps) cs
      else (p = CHR ''_'' \<or> p = c) \<and> like_match ps cs)"

definition demo_ilike :: "string \<Rightarrow> string \<Rightarrow> bool" where
  "demo_ilike t pat = like_match (map ascii_lower pat) (map ascii_lower t)"

definition demo_timestamptz_in :: "string \<Rightarrow> timestamp option" where
  "demo_timestamptz_in s =
     map_of
       [(''2024-01-15 10:30:00+01'', 1705311000000000),
        (''2024-01-16 14:20:00+01'', 1705411200000000),
        (''2024-01-17 09:15:00+01'', 1705479300000000),
        (''2024-01-18 16:45:00+01'', 1705592700000000),
        (''2024-01-19 11:30:00+01'', 1705660200000000),
        (''2024-01-16 00:00:00+01'', 1705359600000000),
        (''2024-01-18 00:00:00+01'', 1705532400000000)] s"

definition demo_engine :: engine where
  "demo_engine = \<lparr>ilike = demo_ilike, timestamptz_in = demo_timestamptz_in\<rparr>"

definition no_faults :: faults where
  "no_faults =
     \<lparr>connect_error = None, select_error = None, insert_error = None, commit_error = None\<rparr>"

text \<open>A database with no table, and one with three emails and an empty audit log.\<close>

definition empty_database :: database where
  "empty_database =
     \<lparr>t_email_metadata = None, t_email_audit_log = None, t_woo_requests = None,
      t_woo_email_matches = None, indexes = []\<rparr>"

definition demo_email :: "int \<Rightarrow> string \<Rightarrow> string \<Rightarrow> timestamp option \<Rightarrow> string \<Rightarrow> email_metadata" where
  "demo_email i sender subject sent classification =
     \<lparr>em_id = i, em_message_id = str_int i, em_sender_email = sender,
      em_sender_name = None, em_recipient_email = ''info@haarlem.nl'',
      em_subject = Some subject, em_sent_date = sent, em_minio_bucket = ''b'',
      em_minio_object_key = str_int i, em_file_size_bytes = None,
      em_has_attachments = Some False, em_classification = Some classification,
      em_zaak_id = None\<rparr>"

definition demo_database :: database where
  "demo_database =
     \<lparr>t_email_metadata =
        Some \<lparr>rows = [demo_email 1 ''a@x.nl'' ''DMS plan'' (Some 1705311000000000) ''intern'',
                      demo_email 2 ''b@x.nl'' ''Agenda'' (Some 1705479300000000) ''vertrouwelijk'',
                      demo_email 3 ''c@x.nl'' ''Vragen'' None ''openbaar''],
              next_id = 4\<rparr>,
      t_email_audit_log = Some \<lparr>rows = [], next_id = 1\<rparr>,
      t_woo_requests = Some \<lparr>rows = [], next_id = 1\<rparr>,
      t_woo_email_matches = Some \<lparr>rows = [], next_id = 1\<rparr>,
      indexes = []\<rparr>"

text \<open>
  A start in which the first pass connects and has its first \<^verbatim>\<open>CREATE INDEX\<close> cancelled
  while it waits for a lock, which the driver raises as an \<open>OperationalError\<close>; the
  later passes meet nothing.
\<close>

definition lock_wait_cancelled :: "nat \<Rightarrow> step_faults" where
  "lock_wait_cancelled i s =
     (if i = 0 \<and> s = CreateIndex 0 then Some OperationalError else None)"

text \<open>A start in which no pass can connect.\<close>

definition server_down :: "nat \<Rightarrow> step_faults" where
  "server_down i s = (if s = Connect then Some OperationalError else None)"

text \<open>
  A start in which every pass connects and has its count query fail: cancelled on the
  first pass (an \<open>OperationalError\<close>), refused on the later ones (a \<open>ProgrammingError\<close>).
\<close>

definition count_fails :: "nat \<Rightarrow> step_faults" where
  "count_fails i s =
     (if s = SelectCount then Some (if i = 0 then OperationalError else ProgrammingError)
      else None)"


text \<open>A database whose email table has 51 rows, none with a sent timestamp.\<close>

definition crowded_database :: database where
  "crowded_database =
     demo_database\<lparr>t_email_metadata :=
       Some \<lparr>rows = map (\<lambda>i. demo_email (int i) ''a@x.nl'' ''Agenda'' None ''intern'') [1..<52],
             next_id = 52\<rparr>\<rparr>"

section \<open>The builder and the text it produces\<close>

lemmas condition_texts =
  query_condition_def date_from_condition_def date_to_condition_def
  classification_condition_def nl_def

text \<open>The four \<^verbatim>\<open>if\<close> statements, side by side.\<close>

lemma build_conditions_eq:
  "build_conditions q df dt c =
     ((if truthy q then [query_condition] else []) @
      (if truthy df then [date_from_condition] else []) @
      (if truthy dt then [date_to_condition] else []) @
      (if classification_applies c then [classification_condition] else []),
      (if truthy q then [like_pattern q, like_pattern q, like_pattern q] else []) @
      (if truthy df then [df] else []) @
      (if truthy dt then [dt] else []) @
      (if classification_applies c then [c] else []))"
  by (simp add: build_conditions_def add_query_def add_date_from_def add_date_to_def
        add_classification_def classification_applies_def)

text \<open>Each of the sixteen clauses, read back from its text.\<close>

lemma parse_built:
  "parse_where (tokenize (where_clause (
      (if a then [query_condition] else []) @
      (if b then [date_from_condition] else []) @
      (if c then [date_to_condition] else []) @
      (if d then [classification_condition] else [])))) =
   Some ((if a then [query_sites] else []) @
      (if b then [[(''sent_date'', ''>='')]] else []) @
      (if c then [[(''sent_date'', ''<='')]] else []) @
      (if d then [[(''classification'', ''='')]] else []))"
  by (simp add: where_clause_def condition_texts tokenize_def is_space_def flush_def
        parse_where_def parse_disj_def query_sites_def)

lemma count_built:
  "count_placeholders (where_clause (
      (if a then [query_condition] else []) @
      (if b then [date_from_condition] else []) @
      (if c then [date_to_condition] else []) @
      (if d then [classification_condition] else []))) =
   (if a then 3 else 0) + (if b then 1 else 0) + (if c then 1 else 0) + (if d then 1 else 0)"
  by (simp add: where_clause_def condition_texts)

lemma and3_True [simp]: "(and3 a b = Some True) = (a = Some True \<and> b = Some True)"
  by (induction a b rule: and3.induct) auto

lemma or3_True [simp]: "(or3 a b = Some True) = (a = Some True \<or> b = Some True)"
  by (induction a b rule: or3.induct) auto

lemma sites_built:
  "placeholder_sites (tokenize (where_clause (
      (if a then [query_condition] else []) @
      (if b then [date_from_condition] else []) @
      (if c then [date_to_condition] else []) @
      (if d then [classification_condition] else [])))) =
   (if a then query_sites else []) @
      (if b then [(''sent_date'', ''>='')] else []) @
      (if c then [(''sent_date'', ''<='')] else []) @
      (if d then [(''classification'', ''='')] else [])"
  by (simp add: where_clause_def condition_texts tokenize_def is_space_def flush_def
        query_sites_def)

section \<open>The engine on the built clause\<close>

lemma text_column_simps:
  "text_column ''subject'' = Some em_subject"
  "text_column ''sender_email'' = Some (\<lambda>r. Some (em_sender_email r))"
  "text_column ''recipient_email'' = Some (\<lambda>r. Some (em_recipient_email r))"
  by (simp_all add: text_column_def)

lemma bind_query:
  "\<exists>f. bind_disj eng query_sites ([like_pattern q, like_pattern q, like_pattern q] @ ps)
          = Inr (f, ps)
       \<and> (\<forall>r. (f r = Some True) = query_matches eng q r)"
  by (auto simp: query_sites_def like_pattern_def bind_atom_def text_column_simps
        query_matches_def Let_def split: option.splits)

lemma bind_date_from:
  assumes "date_accepted eng df" and "truthy df"
  shows "\<exists>f. bind_disj eng [(''sent_date'', ''>='')] ([df] @ ps) = Inr (f, ps)
           \<and> (\<forall>r. (f r = Some True) = sent_on_or_after eng df r)"
  using assms
  by (cases df)
     (auto simp: date_accepted_def bind_atom_def sent_on_or_after_def split: option.splits)

lemma bind_date_to:
  assumes "date_accepted eng dt" and "truthy dt"
  shows "\<exists>f. bind_disj eng [(''sent_date'', ''<='')] ([dt] @ ps) = Inr (f, ps)
           \<and> (\<forall>r. (f r = Some True) = sent_on_or_before eng dt r)"
  using assms
  by (cases dt)
     (auto simp: date_accepted_def bind_atom_def sent_on_or_before_def split: option.splits)

lemma bind_classification:
  assumes "classification_accepted c" and "classification_applies c"
  shows "\<exists>f. bind_disj eng [(''classification'', ''='')] ([c] @ ps) = Inr (f, ps)
           \<and> (\<forall>r. (f r = Some True) = classified_as c r)"
  using assms
  by (cases c)
     (auto simp: classification_accepted_def bind_atom_def classified_as_def
        split: option.splits)

lemma bind_conj_if:
  assumes d: "a \<Longrightarrow> \<exists>f. bind_disj eng d (pa @ ps) = Inr (f, ps) \<and> (\<forall>r. (f r = Some True) = P r)"
    and ds: "\<exists>g. bind_conj eng ds ps = Inr (g, rest) \<and> (\<forall>r. (g r = Some True) = Q r)"
  shows "\<exists>h. bind_conj eng ((if a then [d] else []) @ ds) ((if a then pa else []) @ ps)
                = Inr (h, rest)
            \<and> (\<forall>r. (h r = Some True) = ((if a then P r else True) \<and> Q r))"
proof (cases a)
  case True
  from d [OF True] obtain f where
    f: "bind_disj eng d (pa @ ps) = Inr (f, ps)" "\<forall>r. (f r = Some True) = P r"
    by blast
  from ds obtain g where
    g: "bind_conj eng ds ps = Inr (g, rest)" "\<forall>r. (g r = Some True) = Q r"
    by blast
  show ?thesis using True f g by simp
next
  case False
  then show ?thesis using ds by simp
qed

lemma bind_built:
  assumes "date_accepted eng df" "date_accepted eng dt" "classification_accepted c"
  shows "\<exists>f. bind_where eng (where_clause (fst (build_conditions q df dt c)))
                 (snd (build_conditions q df dt c)) = Inr f
             \<and> (\<forall>r. (f r = Some True) =
                  ((if truthy q then query_matches eng q r else True)
                   \<and> (if truthy df then sent_on_or_after eng df r else True)
                   \<and> (if truthy dt then sent_on_or_before eng dt r else True)
                   \<and> (if classification_applies c then classified_as c r else True)
                   \<and> True))"
proof -
  have "\<exists>g. bind_conj eng [] [] = Inr (g, []) \<and> (\<forall>r. (g r = Some True) = True)"
    by simp
  then have "\<exists>h. bind_conj eng
       ((if truthy q then [query_sites] else []) @
        (if truthy df then [[(''sent_date'', ''>='')]] else []) @
        (if truthy dt then [[(''sent_date'', ''<='')]] else []) @
        (if classification_applies c then [[(''classification'', ''='')]] else []) @ [])
       ((if truthy q then [like_pattern q, like_pattern q, like_pattern q] else []) @
        (if truthy df then [df] else []) @
        (if truthy dt then [dt] else []) @
        (if classification_applies c then [c] else []) @ []) = Inr (h, [])
     \<and> (\<forall>r. (h r = Some True) =
           ((if truthy q then query_matches eng q r else True)
            \<and> (if truthy df then sent_on_or_after eng df r else True)
            \<and> (if truthy dt then sent_on_or_before eng dt r else True)
            \<and> (if classification_applies c then classified_as c r else True)
            \<and> True))"
    by (intro bind_conj_if bind_query bind_date_from bind_date_to bind_classification assms)
  then obtain h where
    h: "bind_conj eng
       ((if truthy q then [query_sites] else []) @
        (if truthy df then [[(''sent_date'', ''>='')]] else []) @
        (if truthy dt then [[(''sent_date'', ''<='')]] else []) @
        (if classification_applies c then [[(''classification'', ''='')]] else []))
       ((if truthy q then [like_pattern q, like_pattern q, like_pattern q] else []) @
        (if truthy df then [df] else []) @
        (if truthy dt then [dt] else []) @
        (if classification_applies c then [c] else [])) = Inr (h, [])"
    "\<forall>r. (h r = Some True) =
           ((if truthy q then query_matches eng q r else True)
            \<and> (if truthy df then sent_on_or_after eng df r else True)
            \<and> (if truthy dt then sent_on_or_before eng dt r else True)
            \<and> (if classification_applies c then classified_as c r else True)
            \<and> True)"
    by auto
  show ?thesis
    unfolding build_conditions_eq fst_conv snd_conv bind_where_def parse_built
    using h by simp
qed


lemma fill_built:
  "fill_placeholders (where_clause (fst (build_conditions q df dt c)))
     (snd (build_conditions q df dt c)) = None"
  by (simp add: build_conditions_eq count_built fill_placeholders_def)

text \<open>When the engine rejects a parameter, the exception is a \<open>ProgrammingError\<close> or a
  \<open>DataError\<close>.\<close>

lemma bind_conj_fails_here:
  assumes "a" and "\<exists>e. e \<in> {ProgrammingError, DataError} \<and> bind_disj eng d (pa @ ps) = Inl e"
  shows "\<exists>e. e \<in> {ProgrammingError, DataError}
     \<and> bind_conj eng ((if a then [d] else []) @ ds) ((if a then pa else []) @ ps) = Inl e"
  using assms by auto

lemma bind_conj_fails_later:
  assumes "a \<Longrightarrow> (\<exists>f. bind_disj eng d (pa @ ps) = Inr (f, ps))
       \<or> (\<exists>e. e \<in> {ProgrammingError, DataError} \<and> bind_disj eng d (pa @ ps) = Inl e)"
    and "\<exists>e. e \<in> {ProgrammingError, DataError} \<and> bind_conj eng ds ps = Inl e"
  shows "\<exists>e. e \<in> {ProgrammingError, DataError}
     \<and> bind_conj eng ((if a then [d] else []) @ ds) ((if a then pa else []) @ ps) = Inl e"
  using assms by (cases a) auto

lemma date_total:
  assumes "opr = ''>='' \<or> opr = ''<=''"
  shows "(\<exists>f. bind_disj eng [(''sent_date'', opr)] ([v] @ ps) = Inr (f, ps))
   \<or> (\<exists>e. e \<in> {ProgrammingError, DataError}
          \<and> bind_disj eng [(''sent_date'', opr)] ([v] @ ps) = Inl e)"
  using assms by (cases v) (auto simp: bind_atom_def split: option.splits)

lemma query_total:
  "(\<exists>f. bind_disj eng query_sites ([like_pattern q, like_pattern q, like_pattern q] @ ps) = Inr (f, ps))
   \<or> (\<exists>e. e \<in> {ProgrammingError, DataError}
          \<and> bind_disj eng query_sites ([like_pattern q, like_pattern q, like_pattern q] @ ps) = Inl e)"
  using bind_query [of eng q ps] by blast

lemma date_from_rejected:
  assumes "\<not> date_accepted eng df"
  shows "truthy df
     \<and> (\<exists>e. e \<in> {ProgrammingError, DataError}
            \<and> bind_disj eng [(''sent_date'', ''>='')] ([df] @ ps) = Inl e)"
  using assms
  by (cases df) (auto simp: date_accepted_def bind_atom_def split: option.splits if_splits)

lemma date_to_rejected:
  assumes "\<not> date_accepted eng dt"
  shows "truthy dt
     \<and> (\<exists>e. e \<in> {ProgrammingError, DataError}
            \<and> bind_disj eng [(''sent_date'', ''<='')] ([dt] @ ps) = Inl e)"
  using assms
  by (cases dt) (auto simp: date_accepted_def bind_atom_def split: option.splits if_splits)

lemma classification_rejected:
  assumes "\<not> classification_accepted c"
  shows "classification_applies c
     \<and> (\<exists>e. e \<in> {ProgrammingError, DataError}
            \<and> bind_disj eng [(''classification'', ''='')] ([c] @ ps) = Inl e)"
  using assms
  by (cases c)
     (auto simp: classification_accepted_def classification_applies_def bind_atom_def
        split: if_splits)

lemma bind_rejected:
  assumes "\<not> (date_accepted eng df \<and> date_accepted eng dt \<and> classification_accepted c)"
  shows "\<exists>e. e \<in> {ProgrammingError, DataError}
     \<and> bind_where eng (where_clause (fst (build_conditions q df dt c)))
                 (snd (build_conditions q df dt c)) = Inl e"
proof -
  have "\<exists>e. e \<in> {ProgrammingError, DataError} \<and> bind_conj eng
       ((if truthy q then [query_sites] else []) @
        (if truthy df then [[(''sent_date'', ''>='')]] else []) @
        (if truthy dt then [[(''sent_date'', ''<='')]] else []) @
        (if classification_applies c then [[(''classification'', ''='')]] else []) @ [])
       ((if truthy q then [like_pattern q, like_pattern q, like_pattern q] else []) @
        (if truthy df then [df] else []) @
        (if truthy dt then [dt] else []) @
        (if classification_applies c then [c] else []) @ []) = Inl e"
  proof -
    consider "\<not> date_accepted eng df" | "\<not> date_accepted eng dt" | "\<not> classification_accepted c"
      using assms by blast
    then show ?thesis
    proof cases
      case 1
      show ?thesis
        by (intro bind_conj_fails_later [OF query_total] bind_conj_fails_here
              conjunct1 [OF date_from_rejected [OF 1]] conjunct2 [OF date_from_rejected [OF 1]])
    next
      case 2
      show ?thesis
        by (intro bind_conj_fails_later [OF query_total]
              bind_conj_fails_later [OF date_total] bind_conj_fails_here
              conjunct1 [OF date_to_rejected [OF 2]] conjunct2 [OF date_to_rejected [OF 2]])
           simp
    next
      case 3
      show ?thesis
        by (intro bind_conj_fails_later [OF query_total]
              bind_conj_fails_later [OF date_total] bind_conj_fails_here
              conjunct1 [OF classification_rejected [OF 3]]
              conjunct2 [OF classification_rejected [OF 3]])
           simp_all
    qed
  qed
  then obtain e where "e \<in> {ProgrammingError, DataError}" "bind_conj eng
       ((if truthy q then [query_sites] else []) @
        (if truthy df then [[(''sent_date'', ''>='')]] else []) @
        (if truthy dt then [[(''sent_date'', ''<='')]] else []) @
        (if classification_applies c then [[(''classification'', ''='')]] else []))
       ((if truthy q then [like_pattern q, like_pattern q, like_pattern q] else []) @
        (if truthy df then [df] else []) @
        (if truthy dt then [dt] else []) @
        (if classification_applies c then [c] else [])) = Inl e"
    by auto
  then show ?thesis
    unfolding build_conditions_eq fst_conv snd_conv bind_where_def parse_built
    by simp
qed

lemma satisfies_eq:
  "satisfies eng data r =
     ((if truthy (get_query data) then query_matches eng (get_query data) r else True)
      \<and> (if truthy (get_date_from data) then sent_on_or_after eng (get_date_from data) r else True)
      \<and> (if truthy (get_date_to data) then sent_on_or_before eng (get_date_to data) r else True)
      \<and> (if classification_applies (get_classification data)
          then classified_as (get_classification data) r else True)
      \<and> True)"
  by (simp add: satisfies_def)

lemma adapt_error_cases:
  "adapt_error ps = None \<or> adapt_error ps = Some ValueError"
  by (simp add: adapt_error_def)

lemma select_not_adapted:
  assumes "adapt_error ps = Some e"
  shows "select_emails eng db clause ps = Inl ValueError"
  using assms by (simp add: select_emails_def adapt_error_def split: if_splits)

lemma select_adapted:
  assumes "select_emails eng db clause ps = Inr rs"
  shows "adapt_error ps = None"
  using assms adapt_error_cases [of ps] select_not_adapted [of ps ValueError eng db clause]
  by auto

lemma select_built:
  assumes "accepted eng data" and "t_email_metadata db = Some t"
    and "adapt_error (snd (build_where data)) = None"
  shows "select_emails eng db (fst (build_where data)) (snd (build_where data)) =
     Inr (map select_list
            (take search_limit
               (order_by_sent_date_desc (filter (satisfies eng data) (rows t)))))"
proof -
  from assms(1) have acc: "date_accepted eng (get_date_from data)"
    "date_accepted eng (get_date_to data)" "classification_accepted (get_classification data)"
    by (simp_all add: accepted_def)
  from bind_built [OF acc, of "get_query data"] obtain f where
    f: "bind_where eng (where_clause (fst (build_conditions (get_query data) (get_date_from data)
            (get_date_to data) (get_classification data))))
          (snd (build_conditions (get_query data) (get_date_from data)
            (get_date_to data) (get_classification data))) = Inr f"
    and sem: "\<And>r. (f r = Some True) = satisfies eng data r"
    unfolding satisfies_eq by blast
  have "filter (\<lambda>r. f r = Some True) (rows t) = filter (satisfies eng data) (rows t)"
    by (simp add: sem)
  then show ?thesis
    using assms(3)
    by (simp add: select_emails_def build_where_def Let_def fill_built f assms(2))
qed

lemma select_rejected:
  assumes "\<not> accepted eng data"
  shows "\<exists>e. e \<in> {ValueError, ProgrammingError, DataError}
     \<and> select_emails eng db (fst (build_where data)) (snd (build_where data)) = Inl e"
proof (cases "adapt_error (snd (build_where data))")
  case (Some e)
  from select_not_adapted [OF this] show ?thesis by simp
next
  case None
  from assms have "\<not> (date_accepted eng (get_date_from data)
      \<and> date_accepted eng (get_date_to data) \<and> classification_accepted (get_classification data))"
    by (simp add: accepted_def)
  from bind_rejected [OF this, of "get_query data"] obtain e where
    "e \<in> {ProgrammingError, DataError}"
    "bind_where eng (where_clause (fst (build_conditions (get_query data) (get_date_from data)
            (get_date_to data) (get_classification data))))
          (snd (build_conditions (get_query data) (get_date_from data)
            (get_date_to data) (get_classification data))) = Inl e"
    by blast
  then show ?thesis
    using None
    by (auto simp: select_emails_def build_where_def Let_def fill_built split: option.splits)
qed

text \<open>Every statement the search builds lies in the fragment of SQL interpreted here.\<close>

lemma select_is_modelled:
  "select_emails eng db (fst (build_where data)) (snd (build_where data)) \<noteq> Inl Unmodelled"
proof (cases "accepted eng data")
  case False
  from select_rejected [OF False, of db] show ?thesis by auto
next
  case True
  show ?thesis
  proof (cases "adapt_error (snd (build_where data))")
    case (Some e)
    from select_not_adapted [OF this] show ?thesis by simp
  next
    case a: None
    show ?thesis
    proof (cases "t_email_metadata db")
      case None
      then show ?thesis
        using a
        by (simp add: select_emails_def build_where_def Let_def fill_built)
    next
      case (Some t)
      from select_built [OF True Some a] show ?thesis by simp
    qed
  qed
qed


section \<open>The handler, case by case\<close>

lemma search_emails_Some:
  "search_emails eng flt db (Some data) =
     (case connect_error flt of
        Some e \<Rightarrow> (Error500 e, db)
      | None \<Rightarrow>
          (case select_error flt of
             Some e \<Rightarrow> (Error500 e, db)
           | None \<Rightarrow>
               (case select_emails eng db (fst (build_where data)) (snd (build_where data)) of
                  Inl e \<Rightarrow> (Error500 e, db)
                | Inr results \<Rightarrow>
                    (case insert_error flt of
                       Some e \<Rightarrow> (Error500 e, db)
                     | None \<Rightarrow>
                         (case insert_email_audit_log
                                 (None, ''search'', ''demo_user'',
                                  audit_details (get_query data) (length results)) db of
                            (Some e, reached) \<Rightarrow> (Error500 e, rollback db reached)
                          | (None, reached) \<Rightarrow>
                              (case commit_error flt of
                                 Some e \<Rightarrow> (Error500 e, rollback db reached)
                               | None \<Rightarrow>
                                   (case jsonify_error results of
                                      Some e \<Rightarrow> (Error500 e, reached)
                                    | None \<Rightarrow> (Ok200 results (length results), reached))))))))"
  by (simp add: search_emails_def build_where_def Let_def split: option.splits)

text \<open>The run of the handler once the \<^verbatim>\<open>SELECT\<close> has returned its rows.\<close>

lemma search_emails_selected:
  assumes "connect_error flt = None" and "select_error flt = None"
    and "select_emails eng db (fst (build_where data)) (snd (build_where data)) = Inr results"
    and "insert_error flt = None"
    and "insert_email_audit_log
           (None, ''search'', ''demo_user'', audit_details (get_query data) (length results)) db
         = (x, reached)"
  shows "search_emails eng flt db (Some data) =
     (case x of
        Some e \<Rightarrow> (Error500 e, rollback db reached)
      | None \<Rightarrow>
          (case commit_error flt of
             Some e \<Rightarrow> (Error500 e, rollback db reached)
           | None \<Rightarrow>
               (case jsonify_error results of
                  Some e \<Rightarrow> (Error500 e, reached)
                | None \<Rightarrow> (Ok200 results (length results), reached))))"
  unfolding search_emails_Some using assms by simp

lemma search_emails_stopped:
  assumes "connect_error flt \<noteq> None \<or> select_error flt \<noteq> None
     \<or> (\<exists>e. select_emails eng db (fst (build_where data)) (snd (build_where data)) = Inl e)
     \<or> insert_error flt \<noteq> None"
  shows "snd (search_emails eng flt db (Some data)) = db
     \<and> (\<exists>e. fst (search_emails eng flt db (Some data)) = Error500 e)"
  unfolding search_emails_Some using assms
  by (auto split: option.splits sum.splits)

lemma search_ok:
  assumes "search_emails eng flt db body = (Ok200 results tot, db')"
  shows "\<exists>data. body = Some data \<and> connect_error flt = None \<and> commit_error flt = None
     \<and> select_emails eng db (fst (build_where data)) (snd (build_where data)) = Inr results
     \<and> tot = length results
     \<and> insert_email_audit_log
          (None, ''search'', ''demo_user'', audit_details (get_query data) (length results)) db
        = (None, db')"
proof (cases body)
  case None
  with assms show ?thesis by (simp add: search_emails_def)
next
  case (Some data)
  let ?sel = "select_emails eng db (fst (build_where data)) (snd (build_where data))"
  show ?thesis
  proof (cases "connect_error flt \<noteq> None \<or> select_error flt \<noteq> None
     \<or> (\<exists>e. ?sel = Inl e) \<or> insert_error flt \<noteq> None")
    case True
    from search_emails_stopped [OF True] assms Some show ?thesis by auto
  next
    case False
    then obtain rs where env: "connect_error flt = None" "select_error flt = None"
      "insert_error flt = None" and sel: "?sel = Inr rs"
      by (cases ?sel) auto
    obtain x reached where i: "insert_email_audit_log
        (None, ''search'', ''demo_user'', audit_details (get_query data) (length rs)) db
        = (x, reached)"
      by (cases "insert_email_audit_log
        (None, ''search'', ''demo_user'', audit_details (get_query data) (length rs)) db")
    show ?thesis
      using assms Some env sel i
        search_emails_selected [OF env(1,2) sel env(3) i]
      by (cases x; cases "commit_error flt"; cases "jsonify_error rs") simp_all
  qed
qed

lemma insert_audit_ok:
  assumes "insert_email_audit_log (email_id, action, user_id, details) db = (None, db')"
  shows "\<exists>t. t_email_audit_log db = Some t
     \<and> db' = db\<lparr>t_email_audit_log :=
                  Some \<lparr>rows = rows t @
                          [\<lparr>al_id = next_id t, al_email_id = email_id, al_action = action,
                            al_user_id = user_id, al_details = Some details\<rparr>],
                        next_id = next_id t + 1\<rparr>\<rparr>"
  using assms
  by (auto simp: insert_email_audit_log_def split: option.splits if_splits)

lemma table_rows_keep_sequence [simp]:
  "table_rows (keep_sequence a b) = table_rows a"
  by (simp add: table_rows_def keep_sequence_def split: option.splits)

lemma rollback_rows [simp]:
  "table_rows (t_email_metadata (rollback db r)) = table_rows (t_email_metadata db)"
  "table_rows (t_email_audit_log (rollback db r)) = table_rows (t_email_audit_log db)"
  "table_rows (t_woo_requests (rollback db r)) = table_rows (t_woo_requests db)"
  "table_rows (t_woo_email_matches (rollback db r)) = table_rows (t_woo_email_matches db)"
  "indexes (rollback db r) = indexes db"
  by (simp_all add: rollback_def)

section \<open>Runs on the concrete inputs\<close>

lemma demo_rows:
  "t_email_metadata demo_database =
     Some \<lparr>rows = [demo_email 1 ''a@x.nl'' ''DMS plan'' (Some 1705311000000000) ''intern'',
                   demo_email 2 ''b@x.nl'' ''Agenda'' (Some 1705479300000000) ''vertrouwelijk'',
                   demo_email 3 ''c@x.nl'' ''Vragen'' None ''openbaar''],
           next_id = 4\<rparr>"
  by (simp add: demo_database_def)

lemmas request_simps =
  get_query_def get_date_from_def get_date_to_def get_classification_def dict_get_def
  classification_applies_def

lemma demo_run:
  "search_emails demo_engine no_faults demo_database (Some [''query'' \<mapsto> PStr ''dms'']) =
     (Ok200 [select_list (demo_email 1 ''a@x.nl'' ''DMS plan'' (Some 1705311000000000) ''intern'')] 1,
      demo_database\<lparr>t_email_audit_log :=
        Some \<lparr>rows = [\<lparr>al_id = 1, al_email_id = None, al_action = ''search'',
                        al_user_id = ''demo_user'',
                        al_details =
                          Some (JObj [(''query'', JStr ''dms''), (''results_count'', JInt 1)])\<rparr>],
              next_id = 2\<rparr>\<rparr>)"
proof -
  have acc: "accepted demo_engine [''query'' \<mapsto> PStr ''dms'']"
    by (simp add: accepted_def date_accepted_def classification_accepted_def request_simps)
  have ad: "adapt_error (snd (build_where [''query'' \<mapsto> PStr ''dms''])) = None"
    by (simp add: build_where_def Let_def build_conditions_eq request_simps adapt_error_def
          like_pattern_def)
  show ?thesis
    unfolding search_emails_Some select_built [OF acc demo_rows ad]
    by (simp add: no_faults_def satisfies_def request_simps query_matches_def
          demo_engine_def demo_ilike_def ascii_lower_def demo_email_def
          order_by_sent_date_desc_def search_limit_def insert_email_audit_log_def
          demo_database_def audit_details_def table_rows_def jsonify_error_def
          utc_overflow_def select_list_def datetime_min_def datetime_max_def)
qed




lemma order_mset [simp]: "mset (order_by_sent_date_desc rs) = mset rs"
  by (simp add: order_by_sent_date_desc_def)

lemma order_length [simp]: "length (order_by_sent_date_desc rs) = length rs"
  by (simp add: order_by_sent_date_desc_def)

lemma sr_sent_date_select_list [simp]: "sr_sent_date (select_list r) = em_sent_date r"
  by (simp add: select_list_def)

lemma select_needs_table:
  assumes "select_emails eng db (fst (build_where data)) (snd (build_where data)) = Inr rs"
  shows "\<exists>t. t_email_metadata db = Some t"
  using assms
  by (cases "t_email_metadata db")
     (simp_all add: select_emails_def build_where_def Let_def fill_built split: option.splits)

lemma no_filter_satisfies:
  assumes "\<not> truthy (get_query data)" "\<not> truthy (get_date_from data)"
    "\<not> truthy (get_date_to data)" "\<not> classification_applies (get_classification data)"
  shows "satisfies eng data r" "accepted eng data"
    "adapt_error (snd (build_where data)) = None"
  using assms
  by (simp_all add: satisfies_def accepted_def date_accepted_def classification_accepted_def
        build_where_def Let_def build_conditions_eq adapt_error_def)

lemma crowded_rows:
  "t_email_metadata crowded_database =
     Some \<lparr>rows = map (\<lambda>i. demo_email (int i) ''a@x.nl'' ''Agenda'' None ''intern'') [1..<52],
           next_id = 52\<rparr>"
  by (simp add: crowded_database_def)

lemma crowded_run:
  "\<exists>rs db'. search_emails demo_engine no_faults crowded_database (Some Map.empty) =
      (Ok200 rs 50, db')"
proof -
  have acc: "accepted demo_engine Map.empty"
    by (rule no_filter_satisfies) (simp_all add: request_simps)
  have ad: "adapt_error (snd (build_where Map.empty)) = None"
    by (rule no_filter_satisfies) (simp_all add: request_simps)
  have all: "filter (satisfies demo_engine Map.empty) rs = rs" for rs
    by (simp add: no_filter_satisfies(1) request_simps)
  have js: "jsonify_error (map select_list (take n (order_by_sent_date_desc
      (map (\<lambda>i. demo_email (int i) ''a@x.nl'' ''Agenda'' None ''intern'') is)))) = None" for n "is"
  proof -
    have "\<not> utc_overflow r"
      if "r \<in> set (map select_list (take n (order_by_sent_date_desc
        (map (\<lambda>i. demo_email (int i) ''a@x.nl'' ''Agenda'' None ''intern'') is))))" for r
    proof -
      from that obtain m where "m \<in> set (take n (order_by_sent_date_desc
        (map (\<lambda>i. demo_email (int i) ''a@x.nl'' ''Agenda'' None ''intern'') is)))"
        and r: "r = select_list m"
        by auto
      then have "m \<in> set (order_by_sent_date_desc
        (map (\<lambda>i. demo_email (int i) ''a@x.nl'' ''Agenda'' None ''intern'') is))"
        by (rule_tac in_set_takeD)
      then have "m \<in> set (map (\<lambda>i. demo_email (int i) ''a@x.nl'' ''Agenda'' None ''intern'') is)"
        by (simp add: order_by_sent_date_desc_def)
      then have "em_sent_date m = None"
        by (auto simp: demo_email_def)
      with r show ?thesis
        by (simp add: utc_overflow_def select_list_def)
    qed
    then show ?thesis
      by (simp add: jsonify_error_def list_ex_iff)
  qed
  show ?thesis
    unfolding search_emails_Some select_built [OF acc crowded_rows ad] all
    by (simp add: no_faults_def insert_email_audit_log_def crowded_database_def
          demo_database_def search_limit_def js)
qed

lemma search_emails_cong:
  assumes "get_query d1 = get_query d2"
    and "build_where d1 = build_where d2"
  shows "search_emails eng flt db (Some d1) = search_emails eng flt db (Some d2)"
  unfolding search_emails_Some assms by (rule refl)

lemma demo_window:
  "accepted demo_engine
     [''query'' \<mapsto> PStr ''X.NL'', ''date_from'' \<mapsto> PStr ''2024-01-15 10:30:00+01'',
      ''date_to'' \<mapsto> PStr ''2024-01-17 09:15:00+01'']"
  by (simp add: accepted_def date_accepted_def classification_accepted_def request_simps
        demo_engine_def demo_timestamptz_in_def)




lemma try_block_connect_fails:
  "fault Connect = Some e \<Longrightarrow> try_block eng fault db = (Some e, db)"
  by (simp add: try_block_def)

lemma attempt_fails:
  assumes "fst (attempt eng plan db k) = Some e"
  shows "try_block eng (plan k) (attempt_state eng plan db k)
     = (Some e, attempt_state eng plan db (Suc k))"
  using assms
  by (cases "try_block eng (plan k) (attempt_state eng plan db k)") (simp add: attempt_def)

lemma init_loop_retry:
  assumes "k < max_retries"
    and "\<forall>i. i < k \<longrightarrow> fst (attempt eng plan db i) = Some OperationalError"
  shows "init_loop eng plan 0 [] db =
     init_loop eng plan k (replicate k 2) (attempt_state eng plan db k)"
  using assms
proof (induction k)
  case 0
  then show ?case by simp
next
  case (Suc k)
  have a: "try_block eng (plan k) (attempt_state eng plan db k)
     = (Some OperationalError, attempt_state eng plan db (Suc k))"
    using Suc.prems(2) by (intro attempt_fails) simp
  have "init_loop eng plan 0 [] db =
     init_loop eng plan k (replicate k 2) (attempt_state eng plan db k)"
    using Suc by simp
  also have "\<dots> = init_loop eng plan (k + 1) (replicate k 2 @ [2])
      (attempt_state eng plan db (Suc k))"
    using Suc.prems(1)
    by (subst init_loop.simps) (simp add: a del: attempt_state.simps)
  finally show ?case
    by (simp add: replicate_append_same del: attempt_state.simps)
qed

lemma init_loop_last:
  assumes "try_block eng (plan rc) db = (Some OperationalError, db')"
    and "rc + 1 = max_retries"
  shows "init_loop eng plan rc sl db = (Inl OperationalError, sl, db')"
  using assms by (subst init_loop.simps) simp

lemma init_loop_settles:
  assumes "rc < max_retries" and "try_block eng (plan rc) db = (x, db')"
    and "x \<noteq> Some OperationalError"
  shows "init_loop eng plan rc sl db =
     ((case x of None \<Rightarrow> Inr (Some True) | Some e \<Rightarrow> Inl e), sl, db')"
  using assms by (subst init_loop.simps) (simp split: option.splits)

section \<open>Schema setup, step by step\<close>

lemma create_table_rows [simp]:
  "table_rows (create_table_if_not_exists t) = table_rows t"
  by (simp add: create_table_if_not_exists_def table_rows_def split: option.splits)

lemma create_table_exists [simp]: "create_table_if_not_exists t \<noteq> None"
  by (simp add: create_table_if_not_exists_def split: option.splits)

lemma create_table_same [simp]: "t \<noteq> None \<Longrightarrow> create_table_if_not_exists t = t"
  by (auto simp: create_table_if_not_exists_def)

lemma create_index_tables [simp]:
  "t_email_metadata (create_index_if_not_exists n db) = t_email_metadata db"
  "t_email_audit_log (create_index_if_not_exists n db) = t_email_audit_log db"
  "t_woo_requests (create_index_if_not_exists n db) = t_woo_requests db"
  "t_woo_email_matches (create_index_if_not_exists n db) = t_woo_email_matches db"
  by (simp_all add: create_index_if_not_exists_def)

lemma create_index_names [simp]:
  "set (indexes (create_index_if_not_exists n db)) = insert n (set (indexes db))"
  by (auto simp: create_index_if_not_exists_def)

lemma create_index_same [simp]:
  "n \<in> set (indexes db) \<Longrightarrow> create_index_if_not_exists n db = db"
  by (simp add: create_index_if_not_exists_def)

lemma create_tables_parts [simp]:
  "t_email_metadata (create_tables db) = create_table_if_not_exists (t_email_metadata db)"
  "t_email_audit_log (create_tables db) = create_table_if_not_exists (t_email_audit_log db)"
  "t_woo_requests (create_tables db) = create_table_if_not_exists (t_woo_requests db)"
  "t_woo_email_matches (create_tables db) = create_table_if_not_exists (t_woo_email_matches db)"
  "indexes (create_tables db) = indexes db"
  by (simp_all add: create_tables_def)

lemma create_rows [simp]:
  "table_rows (t_email_metadata (create_indexes (create_tables db))) = table_rows (t_email_metadata db)"
  "table_rows (t_email_audit_log (create_indexes (create_tables db))) = table_rows (t_email_audit_log db)"
  "table_rows (t_woo_requests (create_indexes (create_tables db))) = table_rows (t_woo_requests db)"
  "table_rows (t_woo_email_matches (create_indexes (create_tables db))) = table_rows (t_woo_email_matches db)"
  by (simp_all add: create_indexes_def)

lemma ready_after_create: "schema_ready (create_indexes (create_tables db))"
  by (simp add: schema_ready_def create_indexes_def)

lemma create_when_ready:
  assumes "schema_ready db"
  shows "create_indexes (create_tables db) = db"
proof -
  have "create_tables db = db"
    using assms by (simp add: schema_ready_def create_tables_def)
  then show ?thesis
    using assms by (simp add: schema_ready_def create_indexes_def)
qed

lemma execute_cases:
  assumes "execute c st d = (y, d')"
  shows "(c = None \<and> st d = (y, d')) \<or> (c = y \<and> y \<noteq> None \<and> d' = d)"
  using assms by (cases c) (auto simp: execute_def)

lemma and_then_cases:
  assumes "and_then r g = (y, d')"
  shows "(\<exists>d1. r = (None, d1) \<and> g d1 = (y, d')) \<or> (y \<noteq> None \<and> r = (y, d'))"
  using assms by (cases r; cases "fst r") (auto simp: and_then_def)

lemma and_then_ok:
  assumes "and_then r g = (None, d')"
  shows "\<exists>d1. r = (None, d1) \<and> g d1 = (None, d')"
  using and_then_cases [OF assms] by simp

lemma for_each_invariant_set:
  "for_each fault f i xs d = (y, d') \<Longrightarrow> P d \<Longrightarrow>
   (\<And>x d y d'. x \<in> set xs \<Longrightarrow> f x d = (y, d') \<Longrightarrow> P d \<Longrightarrow> P d') \<Longrightarrow> P d'"
proof (induction xs arbitrary: d i)
  case Nil
  then show ?case by simp
next
  case (Cons x xs)
  note step = Cons.prems(3)
  have step': "\<And>x' d y d'. x' \<in> set xs \<Longrightarrow> f x' d = (y, d') \<Longrightarrow> P d \<Longrightarrow> P d'"
    using step by (meson list.set_intros(2))
  obtain z d1 where fx: "execute (fault i) (f x) d = (z, d1)"
    by (cases "execute (fault i) (f x) d")
  have p1: "P d1"
    using execute_cases [OF fx] step [of x d z d1] Cons.prems(2) by auto
  show ?case
  proof (cases z)
    case None
    with Cons.prems(1) fx have "for_each fault f (Suc i) xs d1 = (y, d')"
      by (simp add: and_then_def)
    from Cons.IH [OF this p1 step'] show ?thesis .
  next
    case (Some e)
    with Cons.prems(1) fx have "d' = d1" by (simp add: and_then_def)
    with p1 show ?thesis by simp
  qed
qed

lemma for_each_invariant:
  assumes step: "\<And>x d y d'. f x d = (y, d') \<Longrightarrow> P d \<Longrightarrow> P d'"
  shows "for_each fault f i xs d = (y, d') \<Longrightarrow> P d \<Longrightarrow> P d'"
proof -
  assume run: "for_each fault f i xs d = (y, d')" and p: "P d"
  show "P d'"
    by (rule for_each_invariant_set [where P = P, OF run p]) (blast intro: step)
qed

lemma for_each_count:
  fixes m :: "database \<Rightarrow> nat"
  assumes step: "\<And>x d d'. f x d = (None, d') \<Longrightarrow> m d' = m d + k"
  shows "for_each fault f i xs d = (None, d') \<Longrightarrow> m d' = m d + k * length xs"
proof (induction xs arbitrary: d i)
  case Nil
  then show ?case by simp
next
  case (Cons x xs)
  from and_then_ok [OF Cons.prems [unfolded for_each.simps]] obtain d1 where
    a: "execute (fault i) (f x) d = (None, d1)"
    and rest: "for_each fault f (Suc i) xs d1 = (None, d')"
    by blast
  from execute_cases [OF a] have "f x d = (None, d1)" by simp
  from step [OF this] Cons.IH [OF rest] show ?case by simp
qed

text \<open>An exception that no statement of the loop raises comes from outside.\<close>

lemma for_each_error:
  "for_each fault f i xs d = (Some e, d') \<Longrightarrow>
   (\<And>x d d'. x \<in> set xs \<Longrightarrow> f x d \<noteq> (Some e, d')) \<Longrightarrow> \<exists>j. fault j = Some e"
proof (induction xs arbitrary: d i)
  case Nil
  then show ?case by simp
next
  case (Cons x xs)
  note own = Cons.prems(2)
  have own': "\<And>x' d d'. x' \<in> set xs \<Longrightarrow> f x' d \<noteq> (Some e, d')"
    using own by (meson list.set_intros(2))
  from and_then_cases [OF Cons.prems(1) [unfolded for_each.simps]]
  show ?case
  proof
    assume "\<exists>d1. execute (fault i) (f x) d = (None, d1)
       \<and> for_each fault f (Suc i) xs d1 = (Some e, d')"
    then obtain d1 where "for_each fault f (Suc i) xs d1 = (Some e, d')" by blast
    from Cons.IH [OF this own'] show ?thesis .
  next
    assume "Some e \<noteq> None \<and> execute (fault i) (f x) d = (Some e, d')"
    then have "execute (fault i) (f x) d = (Some e, d')" by simp
    from execute_cases [OF this] own [of x d d'] show ?thesis by auto
  qed
qed

lemma insert_email_ready:
  assumes "insert_email_metadata eng v d = (y, d')" and "schema_ready d"
  shows "schema_ready d'"
  using assms
  by (cases v)
     (auto simp: insert_email_metadata_def schema_ready_def split: option.splits if_splits)

lemma insert_woo_ready:
  assumes "insert_woo_requests v d = (y, d')" and "schema_ready d"
  shows "schema_ready d'"
  using assms
  by (cases v)
     (auto simp: insert_woo_requests_def schema_ready_def split: option.splits if_splits)

lemma insert_audit_ready:
  assumes "insert_email_audit_log v d = (y, d')" and "schema_ready d"
  shows "schema_ready d'"
  using assms
  by (cases v)
     (auto simp: insert_email_audit_log_def schema_ready_def split: option.splits if_splits)

lemma for_each_frame:
  assumes step: "\<And>x d y d'. f x d = (y, d') \<Longrightarrow> g d' = g d"
  shows "for_each fault f i xs d = (y, d') \<Longrightarrow> g d' = g d"
proof -
  assume run: "for_each fault f i xs d = (y, d')"
  have "\<And>x d0 y d1. f x d0 = (y, d1) \<Longrightarrow> g d0 = g d \<Longrightarrow> g d1 = g d"
    using step by simp
  from for_each_invariant [where P = "\<lambda>x. g x = g d", OF this run] show ?thesis by simp
qed

text \<open>What an insert changes: its own table, and on success one more row there.\<close>

lemma insert_email_frame:
  assumes "insert_email_metadata eng v d = (y, d')"
  shows "t_woo_requests d' = t_woo_requests d"
    and "t_email_audit_log d' = t_email_audit_log d"
    and "t_woo_email_matches d' = t_woo_email_matches d"
  using assms
  by (cases v; auto simp: insert_email_metadata_def split: option.splits if_splits)+

lemma insert_woo_frame:
  assumes "insert_woo_requests v d = (y, d')"
  shows "t_email_metadata d' = t_email_metadata d"
    and "t_email_audit_log d' = t_email_audit_log d"
    and "t_woo_email_matches d' = t_woo_email_matches d"
  using assms
  by (cases v; auto simp: insert_woo_requests_def split: option.splits if_splits)+

lemma insert_audit_frame:
  assumes "insert_email_audit_log v d = (y, d')"
  shows "t_email_metadata d' = t_email_metadata d"
    and "t_woo_requests d' = t_woo_requests d"
    and "t_woo_email_matches d' = t_woo_email_matches d"
  using assms
  by (cases v; auto simp: insert_email_audit_log_def split: option.splits if_splits)+

lemma insert_email_rows:
  assumes "insert_email_metadata eng v d = (None, d')"
  shows "length (table_rows (t_email_metadata d')) = length (table_rows (t_email_metadata d)) + 1"
  using assms
  by (cases v)
     (auto simp: insert_email_metadata_def table_rows_def split: option.splits if_splits)

lemma insert_woo_rows:
  assumes "insert_woo_requests v d = (None, d')"
  shows "length (table_rows (t_woo_requests d')) = length (table_rows (t_woo_requests d)) + 1"
  using assms
  by (cases v)
     (auto simp: insert_woo_requests_def table_rows_def split: option.splits if_splits)

lemma insert_audit_rows:
  assumes "insert_email_audit_log v d = (None, d')"
  shows "length (table_rows (t_email_audit_log d')) = length (table_rows (t_email_audit_log d)) + 1"
  using assms
  by (cases v)
     (auto simp: insert_email_audit_log_def table_rows_def split: option.splits if_splits)

text \<open>The statements of the schema, when none of them raises.\<close>

lemma create_table_statements_ok:
  assumes "for_each fault (\<lambda>st. st) 0 create_table_statements d = (None, d')"
  shows "d' = create_tables d"
  using assms
  by (auto simp: create_table_statements_def create_tables_def and_then_def execute_def
        split: option.splits)

lemma create_index_ok:
  assumes "for_each fault create_index 0 index_names d = (None, d')"
  shows "d' = create_indexes d"
  using assms
  by (auto simp: index_names_def create_indexes_def create_index_def and_then_def execute_def
        split: option.splits)

lemma init_statements_ok:
  assumes "init_statements eng fault d = (None, d1)"
  shows "fault SelectCount = None
     \<and> (if table_rows (t_email_metadata d) = []
        then insert_sample_data eng fault (create_indexes (create_tables d)) = (None, d1)
        else d1 = create_indexes (create_tables d))"
proof -
  let ?rest = "\<lambda>db1. (case fault SelectCount of
                      Some e \<Rightarrow> (Some e, db1)
                    | None \<Rightarrow>
                        let count = length (table_rows (t_email_metadata db1))
                        in if count = 0 then insert_sample_data eng fault db1
                           else (None, db1))"
  have "and_then
       (for_each (\<lambda>i. fault (CreateTable i)) (\<lambda>st. st) 0 create_table_statements d)
       (\<lambda>db. and_then
                (for_each (\<lambda>i. fault (CreateIndex i)) create_index 0 index_names db)
                ?rest) = (None, d1)"
    using assms by (simp add: init_statements_def)
  from and_then_ok [OF this] obtain da where
    a: "for_each (\<lambda>i. fault (CreateTable i)) (\<lambda>st. st) 0 create_table_statements d = (None, da)"
    and r: "and_then (for_each (\<lambda>i. fault (CreateIndex i)) create_index 0 index_names da)
              ?rest = (None, d1)"
    by blast
  from and_then_ok [OF r] obtain db1 where
    b: "for_each (\<lambda>i. fault (CreateIndex i)) create_index 0 index_names da = (None, db1)"
    and c: "?rest db1 = (None, d1)"
    by blast
  have db1: "db1 = create_indexes (create_tables d)"
    using create_table_statements_ok [OF a] create_index_ok [OF b] by simp
  from c show ?thesis
    unfolding db1 by (cases "fault SelectCount") (simp_all add: Let_def split: if_splits)
qed

lemma insert_sample_data_steps:
  assumes "insert_sample_data eng fault d = (None, d3)"
  shows "\<exists>d1 d2.
       for_each (\<lambda>i. fault (InsertEmail i)) (insert_email_metadata eng) 0 sample_emails d
         = (None, d1)
     \<and> insert_woo_requests sample_woo_request d1 = (None, d2)
     \<and> for_each (\<lambda>i. fault (InsertAudit i)) insert_email_audit_log 0 audit_logs d2 = (None, d3)"
proof -
  from and_then_ok [OF assms [unfolded insert_sample_data_def]] obtain d1 where
    a: "for_each (\<lambda>i. fault (InsertEmail i)) (insert_email_metadata eng) 0 sample_emails d
         = (None, d1)"
    and r: "and_then
              (execute (fault InsertRequest) (insert_woo_requests sample_woo_request) d1)
              (for_each (\<lambda>i. fault (InsertAudit i)) insert_email_audit_log 0 audit_logs)
            = (None, d3)"
    by blast
  from and_then_ok [OF r] obtain d2 where
    b: "execute (fault InsertRequest) (insert_woo_requests sample_woo_request) d1 = (None, d2)"
    and c: "for_each (\<lambda>i. fault (InsertAudit i)) insert_email_audit_log 0 audit_logs d2
         = (None, d3)"
    by blast
  from execute_cases [OF b] have "insert_woo_requests sample_woo_request d1 = (None, d2)"
    by simp
  with a c show ?thesis by blast
qed

lemma insert_sample_data_ready:
  assumes "insert_sample_data eng fault d = (None, d3)" and "schema_ready d"
  shows "schema_ready d3"
proof -
  from insert_sample_data_steps [OF assms(1)] obtain d1 d2 where
    a: "for_each (\<lambda>i. fault (InsertEmail i)) (insert_email_metadata eng) 0 sample_emails d
         = (None, d1)"
    and b: "insert_woo_requests sample_woo_request d1 = (None, d2)"
    and c: "for_each (\<lambda>i. fault (InsertAudit i)) insert_email_audit_log 0 audit_logs d2
         = (None, d3)"
    by blast
  have r1: "schema_ready d1"
    by (rule for_each_invariant [where P = schema_ready, OF insert_email_ready a assms(2)])
  have r2: "schema_ready d2"
    by (rule insert_woo_ready [OF b r1])
  show ?thesis
    by (rule for_each_invariant [where P = schema_ready, OF insert_audit_ready c r2])
qed

lemma insert_sample_data_rows:
  assumes "insert_sample_data eng fault d = (None, d3)"
  shows "length (table_rows (t_email_metadata d3)) = length (table_rows (t_email_metadata d)) + 5"
    and "length (table_rows (t_woo_requests d3)) = length (table_rows (t_woo_requests d)) + 1"
    and "length (table_rows (t_email_audit_log d3)) = length (table_rows (t_email_audit_log d)) + 5"
    and "t_woo_email_matches d3 = t_woo_email_matches d"
proof -
  from insert_sample_data_steps [OF assms] obtain d1 d2 where
    a: "for_each (\<lambda>i. fault (InsertEmail i)) (insert_email_metadata eng) 0 sample_emails d
         = (None, d1)"
    and b: "insert_woo_requests sample_woo_request d1 = (None, d2)"
    and c: "for_each (\<lambda>i. fault (InsertAudit i)) insert_email_audit_log 0 audit_logs d2
         = (None, d3)"
    by blast
  have n: "length sample_emails = 5" "length audit_logs = 5"
    by (simp_all add: sample_emails_def audit_logs_def)
  have a1: "length (table_rows (t_email_metadata d1))
      = length (table_rows (t_email_metadata d)) + 1 * length sample_emails"
    by (rule for_each_count [OF insert_email_rows a])
  have a2: "t_woo_requests d1 = t_woo_requests d"
    by (rule for_each_frame [OF insert_email_frame(1) a])
  have a3: "t_email_audit_log d1 = t_email_audit_log d"
    by (rule for_each_frame [OF insert_email_frame(2) a])
  have a4: "t_woo_email_matches d1 = t_woo_email_matches d"
    by (rule for_each_frame [OF insert_email_frame(3) a])
  have c1: "length (table_rows (t_email_audit_log d3))
      = length (table_rows (t_email_audit_log d2)) + 1 * length audit_logs"
    by (rule for_each_count [OF insert_audit_rows c])
  have c2: "t_email_metadata d3 = t_email_metadata d2"
    by (rule for_each_frame [OF insert_audit_frame(1) c])
  have c3: "t_woo_requests d3 = t_woo_requests d2"
    by (rule for_each_frame [OF insert_audit_frame(2) c])
  have c4: "t_woo_email_matches d3 = t_woo_email_matches d2"
    by (rule for_each_frame [OF insert_audit_frame(3) c])
  show "length (table_rows (t_email_metadata d3)) = length (table_rows (t_email_metadata d)) + 5"
    using a1 c2 insert_woo_frame(1) [OF b] n by simp
  show "length (table_rows (t_woo_requests d3)) = length (table_rows (t_woo_requests d)) + 1"
    using a2 c3 insert_woo_rows [OF b] by simp
  show "length (table_rows (t_email_audit_log d3)) = length (table_rows (t_email_audit_log d)) + 5"
    using a3 c1 insert_woo_frame(2) [OF b] n by simp
  show "t_woo_email_matches d3 = t_woo_email_matches d"
    using a4 c4 insert_woo_frame(3) [OF b] by simp
qed

text \<open>What a pass that succeeds has done.\<close>

lemma try_block_success:
  assumes "try_block eng fault d = (None, d')"
  shows "fault Connect = None \<and> init_statements eng fault d = (None, d')
     \<and> fault Commit = None"
proof (cases "fault Connect")
  case (Some e)
  with assms show ?thesis by (simp add: try_block_def)
next
  case None
  obtain x reached where i: "init_statements eng fault d = (x, reached)"
    by (cases "init_statements eng fault d")
  with assms None show ?thesis
    by (cases x; cases "fault Commit") (simp_all add: try_block_def)
qed

lemma try_block_ok:
  assumes "fault Connect = None" and "init_statements eng fault d = (None, d')"
    and "fault Commit = None"
  shows "try_block eng fault d = (None, d')"
  using assms by (simp add: try_block_def)

lemma successful_pass:
  assumes "try_block eng fault d = (None, d1)"
  shows "schema_ready d1"
    and "if table_rows (t_email_metadata d) = []
         then length (table_rows (t_email_metadata d1)) = 5
            \<and> length (table_rows (t_woo_requests d1))
                = length (table_rows (t_woo_requests d)) + 1
            \<and> length (table_rows (t_email_audit_log d1))
                = length (table_rows (t_email_audit_log d)) + 5
         else table_rows (t_email_metadata d1) = table_rows (t_email_metadata d)
            \<and> table_rows (t_woo_requests d1) = table_rows (t_woo_requests d)
            \<and> table_rows (t_email_audit_log d1) = table_rows (t_email_audit_log d)"
    and "table_rows (t_woo_email_matches d1) = table_rows (t_woo_email_matches d)"
proof -
  let ?d = "create_indexes (create_tables d)"
  from try_block_success [OF assms] have "init_statements eng fault d = (None, d1)"
    by simp
  from init_statements_ok [OF this] have
    st: "if table_rows (t_email_metadata d) = []
         then insert_sample_data eng fault ?d = (None, d1) else d1 = ?d"
    by simp
  show "schema_ready d1"
  proof (cases "table_rows (t_email_metadata d) = []")
    case True
    with st have "insert_sample_data eng fault ?d = (None, d1)" by simp
    from insert_sample_data_ready [OF this ready_after_create] show ?thesis .
  next
    case False
    with st have "d1 = ?d" by simp
    then show ?thesis by (simp add: ready_after_create)
  qed
  show "if table_rows (t_email_metadata d) = []
         then length (table_rows (t_email_metadata d1)) = 5
            \<and> length (table_rows (t_woo_requests d1))
                = length (table_rows (t_woo_requests d)) + 1
            \<and> length (table_rows (t_email_audit_log d1))
                = length (table_rows (t_email_audit_log d)) + 5
         else table_rows (t_email_metadata d1) = table_rows (t_email_metadata d)
            \<and> table_rows (t_woo_requests d1) = table_rows (t_woo_requests d)
            \<and> table_rows (t_email_audit_log d1) = table_rows (t_email_audit_log d)"
  proof (cases "table_rows (t_email_metadata d) = []")
    case True
    with st have "insert_sample_data eng fault ?d = (None, d1)" by simp
    from insert_sample_data_rows(1-3) [OF this] True show ?thesis by simp
  next
    case False
    with st have "d1 = ?d" by simp
    with False show ?thesis by simp
  qed
  show "table_rows (t_woo_email_matches d1) = table_rows (t_woo_email_matches d)"
  proof (cases "table_rows (t_email_metadata d) = []")
    case True
    with st have "insert_sample_data eng fault ?d = (None, d1)" by simp
    from insert_sample_data_rows(4) [OF this] show ?thesis by simp
  next
    case False
    with st have "d1 = ?d" by simp
    then show ?thesis by simp
  qed
qed

text \<open>A pass that ends in an exception leaves the rows of every table as they were.\<close>

lemma same_rows_refl [simp]: "same_rows d d"
  by (simp add: same_rows_def)

lemma same_rows_trans: "same_rows a b \<Longrightarrow> same_rows b c \<Longrightarrow> same_rows a c"
  by (simp add: same_rows_def)

lemma same_rows_rollback [simp]: "same_rows d (rollback d reached)"
  by (simp add: same_rows_def)

lemma try_block_failure:
  assumes "try_block eng fault d = (Some e, d')"
  shows "same_rows d d'"
proof (cases "fault Connect")
  case (Some e')
  with assms show ?thesis by (simp add: try_block_def)
next
  case None
  obtain x reached where i: "init_statements eng fault d = (x, reached)"
    by (cases "init_statements eng fault d")
  with assms None have "d' = rollback d reached"
    by (cases x; cases "fault Commit") (simp_all add: try_block_def)
  then show ?thesis by simp
qed

lemma attempt_state_rows:
  assumes "\<forall>i. i < n \<longrightarrow> fst (attempt eng plan db i) = Some OperationalError"
  shows "same_rows db (attempt_state eng plan db n)"
  using assms
proof (induction n)
  case 0
  show ?case by simp
next
  case (Suc n)
  have "fst (attempt eng plan db n) = Some OperationalError"
    using Suc.prems by simp
  from try_block_failure [OF attempt_fails [OF this]]
  have "same_rows (attempt_state eng plan db n) (attempt_state eng plan db (Suc n))" .
  moreover have "same_rows db (attempt_state eng plan db n)"
    using Suc by simp
  ultimately show ?case
    by (rule same_rows_trans [rotated])
qed

lemma init_loop_success:
  "init_loop eng plan rc sl d = (Inr r, sl', db1) \<Longrightarrow> rc < max_retries \<Longrightarrow>
   r = Some True \<and> (\<exists>k d0. same_rows d d0 \<and> try_block eng (plan k) d0 = (None, db1))"
proof (induction eng plan rc sl d rule: init_loop.induct)
  case (1 eng plan rc sl d)
  obtain x d' where tb: "try_block eng (plan rc) d = (x, d')"
    by (cases "try_block eng (plan rc) d")
  show ?case
  proof (cases x)
    case None
    with "1.prems" tb have "r = Some True" "d' = db1"
      by (simp_all add: init_loop.simps [of eng plan rc])
    with tb None same_rows_refl show ?thesis by blast
  next
    case (Some e)
    show ?thesis
    proof (cases "e = OperationalError")
      case False
      with "1.prems" tb Some show ?thesis
        by (simp add: init_loop.simps [of eng plan rc])
    next
      case True
      from try_block_failure [OF tb [unfolded Some]] have rows: "same_rows d d'" .
      show ?thesis
      proof (cases "rc + 1 < max_retries")
        case False
        with "1.prems" tb Some True show ?thesis
          by (simp add: init_loop.simps [of eng plan rc])
      next
        case lt: True
        with "1.prems" tb Some True
        have run: "init_loop eng plan (rc + 1) (sl @ [2]) d' = (Inr r, sl', db1)"
          by (simp add: init_loop.simps [of eng plan rc])
        from "1.IH" [OF "1.prems"(2) tb [symmetric] Some True lt run lt]
        obtain k d0 where "r = Some True" "same_rows d' d0"
          "try_block eng (plan k) d0 = (None, db1)"
          by blast
        with same_rows_trans [OF rows] show ?thesis by blast
      qed
    qed
  qed
qed

text \<open>No statement of the setup raises an \<open>OperationalError\<close> of its own: a pass that ends
  in one has met it from outside, in the connect, in a statement or in the commit.\<close>

lemma insert_email_error:
  "insert_email_metadata eng v d \<noteq> (Some OperationalError, d')"
  by (cases v)
     (auto simp: insert_email_metadata_def split: option.splits if_splits)

lemma insert_woo_error:
  "insert_woo_requests v d \<noteq> (Some OperationalError, d')"
  by (cases v)
     (auto simp: insert_woo_requests_def split: option.splits if_splits)

lemma insert_audit_error:
  "insert_email_audit_log v d \<noteq> (Some OperationalError, d')"
  by (cases v)
     (auto simp: insert_email_audit_log_def split: option.splits if_splits)

lemma insert_sample_data_error:
  assumes "insert_sample_data eng fault d = (Some OperationalError, d')"
  shows "\<exists>s. fault s = Some OperationalError"
proof -
  from and_then_cases [OF assms [unfolded insert_sample_data_def]]
  show ?thesis
  proof
    assume "Some OperationalError \<noteq> None
       \<and> for_each (\<lambda>i. fault (InsertEmail i)) (insert_email_metadata eng) 0 sample_emails d
           = (Some OperationalError, d')"
    then have "for_each (\<lambda>i. fault (InsertEmail i)) (insert_email_metadata eng) 0
        sample_emails d = (Some OperationalError, d')"
      by simp
    then have "\<exists>j. fault (InsertEmail j) = Some OperationalError"
      by (rule for_each_error) (rule insert_email_error)
    then show ?thesis by blast
  next
    assume "\<exists>d1. for_each (\<lambda>i. fault (InsertEmail i)) (insert_email_metadata eng) 0
          sample_emails d = (None, d1)
       \<and> and_then
           (execute (fault InsertRequest) (insert_woo_requests sample_woo_request) d1)
           (for_each (\<lambda>i. fault (InsertAudit i)) insert_email_audit_log 0 audit_logs)
         = (Some OperationalError, d')"
    then obtain d1 where "and_then
           (execute (fault InsertRequest) (insert_woo_requests sample_woo_request) d1)
           (for_each (\<lambda>i. fault (InsertAudit i)) insert_email_audit_log 0 audit_logs)
         = (Some OperationalError, d')"
      by blast
    from and_then_cases [OF this] show ?thesis
    proof
      assume "Some OperationalError \<noteq> None
         \<and> execute (fault InsertRequest) (insert_woo_requests sample_woo_request) d1
             = (Some OperationalError, d')"
      then have "execute (fault InsertRequest) (insert_woo_requests sample_woo_request) d1
             = (Some OperationalError, d')"
        by simp
      from execute_cases [OF this] insert_woo_error [of sample_woo_request d1 d']
      show ?thesis by auto
    next
      assume "\<exists>d2. execute (fault InsertRequest) (insert_woo_requests sample_woo_request) d1
            = (None, d2)
         \<and> for_each (\<lambda>i. fault (InsertAudit i)) insert_email_audit_log 0 audit_logs d2
             = (Some OperationalError, d')"
      then obtain d2 where "for_each (\<lambda>i. fault (InsertAudit i)) insert_email_audit_log 0
          audit_logs d2 = (Some OperationalError, d')"
        by blast
      then have "\<exists>j. fault (InsertAudit j) = Some OperationalError"
        by (rule for_each_error) (rule insert_audit_error)
      then show ?thesis by blast
    qed
  qed
qed

lemma create_table_statements_error:
  assumes "for_each fault (\<lambda>st. st) 0 create_table_statements d = (Some e, d')"
  shows "\<exists>j. fault j = Some e"
  by (rule for_each_error [OF assms]) (auto simp: create_table_statements_def)

lemma create_index_error:
  assumes "for_each fault create_index 0 index_names d = (Some e, d')"
  shows "\<exists>j. fault j = Some e"
  by (rule for_each_error [OF assms]) (simp add: create_index_def)

lemma init_statements_error:
  assumes "init_statements eng fault d = (Some OperationalError, d')"
  shows "\<exists>s. fault s = Some OperationalError"
proof -
  let ?rest = "\<lambda>db1. (case fault SelectCount of
                      Some e \<Rightarrow> (Some e, db1)
                    | None \<Rightarrow>
                        let count = length (table_rows (t_email_metadata db1))
                        in if count = 0 then insert_sample_data eng fault db1
                           else (None, db1))"
  have "and_then
       (for_each (\<lambda>i. fault (CreateTable i)) (\<lambda>st. st) 0 create_table_statements d)
       (\<lambda>db. and_then
                (for_each (\<lambda>i. fault (CreateIndex i)) create_index 0 index_names db)
                ?rest) = (Some OperationalError, d')"
    using assms by (simp add: init_statements_def)
  from and_then_cases [OF this] show ?thesis
  proof
    assume "Some OperationalError \<noteq> None
       \<and> for_each (\<lambda>i. fault (CreateTable i)) (\<lambda>st. st) 0 create_table_statements d
           = (Some OperationalError, d')"
    then have "for_each (\<lambda>i. fault (CreateTable i)) (\<lambda>st. st) 0 create_table_statements d
           = (Some OperationalError, d')"
      by simp
    from create_table_statements_error [OF this] show ?thesis by blast
  next
    assume "\<exists>d1. for_each (\<lambda>i. fault (CreateTable i)) (\<lambda>st. st) 0 create_table_statements d
          = (None, d1)
       \<and> and_then (for_each (\<lambda>i. fault (CreateIndex i)) create_index 0 index_names d1)
           ?rest = (Some OperationalError, d')"
    then obtain d1 where
      "and_then (for_each (\<lambda>i. fault (CreateIndex i)) create_index 0 index_names d1)
           ?rest = (Some OperationalError, d')"
      by blast
    from and_then_cases [OF this] show ?thesis
    proof
      assume "Some OperationalError \<noteq> None
         \<and> for_each (\<lambda>i. fault (CreateIndex i)) create_index 0 index_names d1
             = (Some OperationalError, d')"
      then have "for_each (\<lambda>i. fault (CreateIndex i)) create_index 0 index_names d1
             = (Some OperationalError, d')"
        by simp
      from create_index_error [OF this] show ?thesis by blast
    next
      assume "\<exists>d2. for_each (\<lambda>i. fault (CreateIndex i)) create_index 0 index_names d1
            = (None, d2)
         \<and> ?rest d2 = (Some OperationalError, d')"
      then obtain d2 where r: "?rest d2 = (Some OperationalError, d')"
        by blast
      show ?thesis
      proof (cases "fault SelectCount")
        case (Some e)
        with r show ?thesis by auto
      next
        case None
        with r have "insert_sample_data eng fault d2 = (Some OperationalError, d')"
          by (simp add: Let_def split: if_splits)
        from insert_sample_data_error [OF this] show ?thesis .
      qed
    qed
  qed
qed

lemma try_block_error:
  assumes "try_block eng fault d = (Some OperationalError, d')"
  shows "\<exists>s. fault s = Some OperationalError"
proof (cases "fault Connect")
  case (Some e)
  with assms show ?thesis by (auto simp: try_block_def)
next
  case None
  obtain x reached where i: "init_statements eng fault d = (x, reached)"
    by (cases "init_statements eng fault d")
  show ?thesis
  proof (cases x)
    case (Some e)
    with assms None i have "e = OperationalError" by (simp add: try_block_def)
    with i Some init_statements_error show ?thesis by blast
  next
    case n: None
    with assms None i show ?thesis
      by (cases "fault Commit") (auto simp: try_block_def)
  qed
qed

lemma rollback_same [simp]: "rollback d d = d"
  by (cases d) (simp add: rollback_def keep_sequence_def split: option.splits)

text \<open>When the connection is made and the first statement raises, the pass ends with that
  exception.\<close>

lemma first_statement_fails:
  assumes "fault Connect = None" and "fault (CreateTable 0) = Some e"
  shows "try_block eng fault d = (Some e, d)"
proof -
  have "init_statements eng fault d = (Some e, d)"
    using assms(2)
    by (simp add: init_statements_def create_table_statements_def and_then_def execute_def)
  then show ?thesis
    using assms(1) by (simp add: try_block_def)
qed

text \<open>On a database with the schema in place and an email in the table, a pass changes
  nothing, whatever it meets.\<close>

lemma init_statements_ready:
  assumes "schema_ready d" and "table_rows (t_email_metadata d) \<noteq> []"
  shows "snd (init_statements eng fault d) = d"
    and "fault = (\<lambda>s. None) \<Longrightarrow> init_statements eng fault d = (None, d)"
  using assms
  by (simp_all add: init_statements_def create_table_statements_def index_names_def
        create_index_def execute_def and_then_def schema_ready_def split: option.splits)

lemma try_block_ready:
  assumes "schema_ready d" and "table_rows (t_email_metadata d) \<noteq> []"
  shows "snd (try_block eng fault d) = d"
proof -
  obtain x reached where i: "init_statements eng fault d = (x, reached)"
    by (cases "init_statements eng fault d")
  with init_statements_ready(1) [OF assms, of eng fault] have "reached = d" by simp
  with i show ?thesis
    by (cases "fault Connect"; cases x; cases "fault Commit") (simp_all add: try_block_def)
qed

lemma init_loop_fixed:
  "(\<And>fault. snd (try_block eng fault d) = d) \<Longrightarrow>
   snd (snd (init_loop eng plan rc sl d)) = d"
proof (induction eng plan rc sl d rule: init_loop.induct)
  case (1 eng plan rc sl d)
  obtain x d' where tb: "try_block eng (plan rc) d = (x, d')"
    by (cases "try_block eng (plan rc) d")
  with "1.prems" [of "plan rc"] have d': "d' = d" by simp
  show ?case
  proof (cases "rc < max_retries \<and> x = Some OperationalError \<and> rc + 1 < max_retries")
    case False
    with tb d' show ?thesis
      by (cases x) (auto simp: init_loop.simps [of eng plan rc])
  next
    case True
    then have "init_loop eng plan rc sl d = init_loop eng plan (rc + 1) (sl @ [2]) d'"
      using tb by (simp add: init_loop.simps [of eng plan rc])
    moreover have "snd (snd (init_loop eng plan (rc + 1) (sl @ [2]) d')) = d'"
    proof (rule "1.IH")
      show "rc < max_retries" "(x, d') = try_block eng (plan rc) d"
        "x = Some OperationalError" "OperationalError = OperationalError"
        "rc + 1 < max_retries"
        using True tb by simp_all
      show "snd (try_block eng fault d') = d'" for fault
        using "1.prems" [of fault] d' by simp
    qed
    ultimately show ?thesis
      using d' by simp
  qed
qed

text \<open>The setup on the empty database, when it meets nothing.\<close>

lemma fresh_statements:
  "fst (init_statements demo_engine (\<lambda>s. None) empty_database) = None"
  by (simp add: init_statements_def create_table_statements_def index_names_def
        create_index_def execute_def create_table_if_not_exists_def
        create_index_if_not_exists_def empty_database_def table_rows_def
        insert_sample_data_def sample_emails_def and_then_def insert_email_metadata_def
        demo_engine_def demo_timestamptz_in_def sample_woo_request_def insert_woo_requests_def
        audit_logs_def insert_email_audit_log_def)

lemma fresh_pass:
  "try_block demo_engine (\<lambda>s. None) empty_database
     = (None, snd (init_statements demo_engine (\<lambda>s. None) empty_database))"
proof -
  have "init_statements demo_engine (\<lambda>s. None) empty_database
      = (None, snd (init_statements demo_engine (\<lambda>s. None) empty_database))"
    using fresh_statements
    by (cases "init_statements demo_engine (\<lambda>s. None) empty_database") simp
  then show ?thesis
    by (intro try_block_ok) simp_all
qed

lemma fresh_run:
  "init_database demo_engine (\<lambda>i s. None) empty_database =
     (Inr (Some True), [], snd (init_statements demo_engine (\<lambda>s. None) empty_database))"
  using init_loop_settles [of 0 demo_engine "\<lambda>i s. None" empty_database, OF _ fresh_pass]
  by (simp add: init_database_def max_retries_def)

text \<open>The start in which a statement of the first pass is cancelled.\<close>

lemma count_fails_pass:
  "try_block demo_engine (count_fails i) empty_database
     = (Some (if i = 0 then OperationalError else ProgrammingError), empty_database)"
  by (simp add: try_block_def init_statements_def create_table_statements_def
        index_names_def create_index_def execute_def and_then_def count_fails_def
        rollback_def keep_sequence_def empty_database_def)

lemma cancelled_pass:
  "try_block demo_engine (lock_wait_cancelled 0) empty_database
     = (Some OperationalError, empty_database)"
  by (simp add: try_block_def init_statements_def create_table_statements_def
        index_names_def create_index_def execute_def and_then_def lock_wait_cancelled_def
        rollback_def keep_sequence_def empty_database_def)

lemma cancelled_run:
  "init_database demo_engine lock_wait_cancelled empty_database =
     (Inr (Some True), [2], snd (init_statements demo_engine (\<lambda>s. None) empty_database))"
proof -
  have later: "lock_wait_cancelled (Suc 0) = (\<lambda>s. None)"
    by (simp add: fun_eq_iff lock_wait_cancelled_def)
  have "init_loop demo_engine lock_wait_cancelled 0 [] empty_database
      = init_loop demo_engine lock_wait_cancelled (Suc 0) [2] empty_database"
    by (subst init_loop.simps) (simp add: cancelled_pass max_retries_def)
  also have "\<dots> = (Inr (Some True), [2],
      snd (init_statements demo_engine (\<lambda>s. None) empty_database))"
    using init_loop_settles [of "Suc 0" demo_engine lock_wait_cancelled empty_database None
        "snd (init_statements demo_engine (\<lambda>s. None) empty_database)" "[2]"]
      fresh_pass
    by (simp add: later max_retries_def)
  finally show ?thesis
    by (simp add: init_database_def)
qed

section \<open>The claims\<close>

text \<open>
  Claim C1. Whatever the request holds, the clause has exactly as many \<^verbatim>\<open>%s\<close> markers as
  the parameter list has entries, and the parameters stand in the order of the markers:
  reading the clause from left to right, the value at each marker is the one the
  specification binds at that column and operator (the wildcard-wrapped query at each of
  the three \<^verbatim>\<open>ILIKE\<close> positions).
\<close>

theorem placeholders_match_params:
  "count_placeholders (fst (build_where data)) = length (snd (build_where data))
   \<and> map (intended_param data) (placeholder_sites (tokenize (fst (build_where data))))
       = map Some (snd (build_where data))"
  by (simp add: build_where_def Let_def build_conditions_eq count_built sites_built
        intended_param_def query_sites_def)

text \<open>
  Claim C2, as the code has it. The \<^verbatim>\<open>total\<close> of a 200 response is the number of rows in
  that response: the rows that satisfy the filters, latest first, cut at 50. So it is the
  number of matching rows only up to 50.
\<close>

theorem total_counts_returned_rows:
  assumes "search_emails eng flt db body = (Ok200 results tot, db')"
  shows "\<exists>data. body = Some data
     \<and> results = map select_list
         (take search_limit
            (order_by_sent_date_desc
               (filter (satisfies eng data) (table_rows (t_email_metadata db)))))
     \<and> tot = length results
     \<and> tot = min 50 (length (filter (satisfies eng data) (table_rows (t_email_metadata db))))"
proof -
  from search_ok [OF assms] obtain data where
    body: "body = Some data" and tot: "tot = length results"
    and sel: "select_emails eng db (fst (build_where data)) (snd (build_where data)) = Inr results"
    by blast
  from select_needs_table [OF sel] obtain t where t: "t_email_metadata db = Some t"
    by blast
  have acc: "accepted eng data"
    using select_rejected [of eng data db] sel by auto
  from select_built [OF acc t select_adapted [OF sel]] sel have
    "results = map select_list
         (take search_limit (order_by_sent_date_desc (filter (satisfies eng data) (rows t))))"
    by simp
  then show ?thesis
    using body tot t by (simp add: table_rows_def search_limit_def)
qed

theorem total_counts_returned_rows_witness:
  "search_emails demo_engine no_faults demo_database (Some [''query'' \<mapsto> PStr ''dms'']) =
     (Ok200 [select_list (demo_email 1 ''a@x.nl'' ''DMS plan'' (Some 1705311000000000) ''intern'')] 1,
      demo_database\<lparr>t_email_audit_log :=
        Some \<lparr>rows = [\<lparr>al_id = 1, al_email_id = None, al_action = ''search'',
                        al_user_id = ''demo_user'',
                        al_details =
                          Some (JObj [(''query'', JStr ''dms''), (''results_count'', JInt 1)])\<rparr>],
              next_id = 2\<rparr>\<rparr>)
   \<and> (1::nat) = min 50 (length (filter (satisfies demo_engine [''query'' \<mapsto> PStr ''dms''])
                                (table_rows (t_email_metadata demo_database))))"
  using total_counts_returned_rows [OF demo_run] demo_run
  by simp

text \<open>
  Claim C2 as stated fails. With 51 rows in the table and no filter, all 51 rows satisfy
  the filters, and the response has \<^verbatim>\<open>total\<close> 50.
\<close>

theorem total_is_not_the_match_count:
  "total_of (fst (search_emails demo_engine no_faults crowded_database (Some Map.empty)))
     = Some 50
   \<and> length (filter (satisfies demo_engine Map.empty)
               (table_rows (t_email_metadata crowded_database))) = 51"
proof -
  from crowded_run obtain rs db' where
    "search_emails demo_engine no_faults crowded_database (Some Map.empty) = (Ok200 rs 50, db')"
    by blast
  moreover have "filter (satisfies demo_engine Map.empty) rs = rs" for rs
    by (simp add: no_filter_satisfies(1) request_simps)
  ultimately show ?thesis
    by (simp add: crowded_rows table_rows_def)
qed

text \<open>
  Claim C3. Each filter that passes the handler's test adds exactly its condition and its
  parameters, in the order query, \<^verbatim>\<open>date_from\<close>, \<^verbatim>\<open>date_to\<close>, classification: the query
  adds the one parenthesised condition over subject, sender address and recipient
  address, with \<^verbatim>\<open>%query%\<close> bound at all three positions; \<^verbatim>\<open>date_from\<close> adds
  \<^verbatim>\<open>sent_date >= %s\<close> and \<^verbatim>\<open>date_to\<close> adds \<^verbatim>\<open>sent_date <= %s\<close>. For a request whose parameters
  the engine accepts, the clause, read back from its text with the parameters bound in
  order, holds of exactly the rows the specification describes: those where \<^verbatim>\<open>%query%\<close>
  matches (by \<^verbatim>\<open>ILIKE\<close>) the subject or the sender address or the recipient address, and
  whose sent timestamp is not before \<^verbatim>\<open>date_from\<close> and not after \<^verbatim>\<open>date_to\<close>.
\<close>

theorem filters_contribute_their_conditions:
  "build_conditions (get_query data) (get_date_from data) (get_date_to data)
       (get_classification data) =
     ((if truthy (get_query data) then [query_condition] else []) @
      (if truthy (get_date_from data) then [''sent_date >= %s''] else []) @
      (if truthy (get_date_to data) then [''sent_date <= %s''] else []) @
      (if classification_applies (get_classification data) then [''classification = %s'']
       else []),
      (if truthy (get_query data)
       then [PStr (CHR ''%'' # py_str (get_query data) @ ''%''),
             PStr (CHR ''%'' # py_str (get_query data) @ ''%''),
             PStr (CHR ''%'' # py_str (get_query data) @ ''%'')]
       else []) @
      (if truthy (get_date_from data) then [get_date_from data] else []) @
      (if truthy (get_date_to data) then [get_date_to data] else []) @
      (if classification_applies (get_classification data) then [get_classification data]
       else []))
   \<and> (accepted eng data \<longrightarrow>
        (\<exists>f. bind_where eng (fst (build_where data)) (snd (build_where data)) = Inr f
            \<and> (\<forall>r. (f r = Some True) = satisfies eng data r)))"
proof (intro conjI impI)
  show "build_conditions (get_query data) (get_date_from data) (get_date_to data)
       (get_classification data) =
     ((if truthy (get_query data) then [query_condition] else []) @
      (if truthy (get_date_from data) then [''sent_date >= %s''] else []) @
      (if truthy (get_date_to data) then [''sent_date <= %s''] else []) @
      (if classification_applies (get_classification data) then [''classification = %s'']
       else []),
      (if truthy (get_query data)
       then [PStr (CHR ''%'' # py_str (get_query data) @ ''%''),
             PStr (CHR ''%'' # py_str (get_query data) @ ''%''),
             PStr (CHR ''%'' # py_str (get_query data) @ ''%'')]
       else []) @
      (if truthy (get_date_from data) then [get_date_from data] else []) @
      (if truthy (get_date_to data) then [get_date_to data] else []) @
      (if classification_applies (get_classification data) then [get_classification data]
       else []))"
    by (simp add: build_conditions_eq like_pattern_def date_from_condition_def
          date_to_condition_def classification_condition_def)
next
  assume "accepted eng data"
  then have acc: "date_accepted eng (get_date_from data)"
    "date_accepted eng (get_date_to data)" "classification_accepted (get_classification data)"
    by (simp_all add: accepted_def)
  from bind_built [OF acc, of "get_query data"]
  show "\<exists>f. bind_where eng (fst (build_where data)) (snd (build_where data)) = Inr f
            \<and> (\<forall>r. (f r = Some True) = satisfies eng data r)"
    unfolding satisfies_eq by (simp add: build_where_def Let_def)
qed

theorem filters_contribute_their_conditions_witness:
  "accepted demo_engine
     [''query'' \<mapsto> PStr ''X.NL'', ''date_from'' \<mapsto> PStr ''2024-01-15 10:30:00+01'',
      ''date_to'' \<mapsto> PStr ''2024-01-17 09:15:00+01'']
   \<and> (\<exists>f. bind_where demo_engine
            (fst (build_where
               [''query'' \<mapsto> PStr ''X.NL'', ''date_from'' \<mapsto> PStr ''2024-01-15 10:30:00+01'',
                ''date_to'' \<mapsto> PStr ''2024-01-17 09:15:00+01'']))
            (snd (build_where
               [''query'' \<mapsto> PStr ''X.NL'', ''date_from'' \<mapsto> PStr ''2024-01-15 10:30:00+01'',
                ''date_to'' \<mapsto> PStr ''2024-01-17 09:15:00+01''])) = Inr f
         \<and> f (demo_email 1 ''a@x.nl'' ''DMS plan'' (Some 1705311000000000) ''intern'') = Some True
         \<and> f (demo_email 2 ''b@x.nl'' ''Agenda'' (Some 1705479300000000) ''vertrouwelijk'')
             = Some True
         \<and> f (demo_email 3 ''c@x.nl'' ''Vragen'' None ''openbaar'') \<noteq> Some True
         \<and> f (demo_email 4 ''d@y.nl'' ''Agenda'' (Some 1705479300000000) ''intern'') \<noteq> Some True
         \<and> f (demo_email 5 ''e@x.nl'' ''Agenda'' (Some 1705479300000001) ''intern'') \<noteq> Some True)"
proof -
  from filters_contribute_their_conditions
    [of "[''query'' \<mapsto> PStr ''X.NL'', ''date_from'' \<mapsto> PStr ''2024-01-15 10:30:00+01'',
          ''date_to'' \<mapsto> PStr ''2024-01-17 09:15:00+01'']" demo_engine] demo_window
  obtain f where
    f: "bind_where demo_engine
            (fst (build_where
               [''query'' \<mapsto> PStr ''X.NL'', ''date_from'' \<mapsto> PStr ''2024-01-15 10:30:00+01'',
                ''date_to'' \<mapsto> PStr ''2024-01-17 09:15:00+01'']))
            (snd (build_where
               [''query'' \<mapsto> PStr ''X.NL'', ''date_from'' \<mapsto> PStr ''2024-01-15 10:30:00+01'',
                ''date_to'' \<mapsto> PStr ''2024-01-17 09:15:00+01''])) = Inr f"
    and sem: "\<And>r. (f r = Some True) =
       satisfies demo_engine
         [''query'' \<mapsto> PStr ''X.NL'', ''date_from'' \<mapsto> PStr ''2024-01-15 10:30:00+01'',
          ''date_to'' \<mapsto> PStr ''2024-01-17 09:15:00+01''] r"
    by blast
  show ?thesis
    using demo_window f
    by (simp add: sem satisfies_def request_simps query_matches_def sent_on_or_after_def
          sent_on_or_before_def demo_engine_def demo_timestamptz_in_def demo_ilike_def
          ascii_lower_def demo_email_def)
qed

text \<open>
  Claim C4. A search that answers with status 200 appends exactly one row to the audit
  log: action \<^verbatim>\<open>search\<close>, no email reference, and a detail document that records the query
  and, as \<^verbatim>\<open>results_count\<close>, the total returned. The other tables stay as they were.
\<close>

theorem successful_search_appends_one_audit_entry:
  assumes "search_emails eng flt db body = (Ok200 results tot, db')"
  shows "\<exists>data i. body = Some data
     \<and> table_rows (t_email_audit_log db') =
         table_rows (t_email_audit_log db) @
           [\<lparr>al_id = i, al_email_id = None, al_action = ''search'', al_user_id = ''demo_user'',
             al_details =
               Some (JObj [(''query'', json_of (get_query data)),
                           (''results_count'', JInt (int tot))])\<rparr>]
     \<and> t_email_metadata db' = t_email_metadata db
     \<and> t_woo_requests db' = t_woo_requests db
     \<and> t_woo_email_matches db' = t_woo_email_matches db"
proof -
  from search_ok [OF assms] obtain data where
    body: "body = Some data" and tot: "tot = length results"
    and ins: "insert_email_audit_log
          (None, ''search'', ''demo_user'', audit_details (get_query data) (length results)) db
        = (None, db')"
    by blast
  from insert_audit_ok [OF ins] obtain t where
    t: "t_email_audit_log db = Some t"
    and db': "db' = db\<lparr>t_email_audit_log :=
                  Some \<lparr>rows = rows t @
                          [\<lparr>al_id = next_id t, al_email_id = None, al_action = ''search'',
                            al_user_id = ''demo_user'',
                            al_details = Some (audit_details (get_query data) (length results))\<rparr>],
                        next_id = next_id t + 1\<rparr>\<rparr>"
    by blast
  show ?thesis
    using body tot t db' by (simp add: table_rows_def audit_details_def)
qed

theorem successful_search_appends_one_audit_entry_witness:
  "search_emails demo_engine no_faults demo_database (Some [''query'' \<mapsto> PStr ''dms'']) =
     (Ok200 [select_list (demo_email 1 ''a@x.nl'' ''DMS plan'' (Some 1705311000000000) ''intern'')] 1,
      demo_database\<lparr>t_email_audit_log :=
        Some \<lparr>rows = [\<lparr>al_id = 1, al_email_id = None, al_action = ''search'',
                        al_user_id = ''demo_user'',
                        al_details =
                          Some (JObj [(''query'', JStr ''dms''), (''results_count'', JInt 1)])\<rparr>],
              next_id = 2\<rparr>\<rparr>)
   \<and> table_rows (t_email_audit_log demo_database) = []
   \<and> table_rows (t_email_audit_log
         (snd (search_emails demo_engine no_faults demo_database
                 (Some [''query'' \<mapsto> PStr ''dms''])))) =
       [\<lparr>al_id = 1, al_email_id = None, al_action = ''search'', al_user_id = ''demo_user'',
         al_details = Some (JObj [(''query'', JStr ''dms''), (''results_count'', JInt 1)])\<rparr>]"
  using successful_search_appends_one_audit_entry [OF demo_run] demo_run
  by (simp add: demo_database_def table_rows_def)

text \<open>
  Claim C5. After a run of the schema setup that succeeds, a second run (one whose first
  pass meets nothing from outside) succeeds and leaves the database exactly as the first
  run left it: no table, index or row is added. The first run inserts the sample data
  exactly when the email table has no row: then it adds 5 emails, 1 request and 5 audit
  entries; otherwise it adds no row at all. And any further run, whatever its passes
  meet and however it ends, leaves the database as the first run left it.
\<close>

theorem schema_setup_twice:
  assumes "init_database eng plan db = (Inr r, slept, db1)"
    and "plan2 0 = (\<lambda>s. None)"
  shows "init_database eng plan2 db1 = (Inr (Some True), [], db1)
     \<and> schema_ready db1
     \<and> (if table_rows (t_email_metadata db) = []
         then length (table_rows (t_email_metadata db1)) = 5
            \<and> length (table_rows (t_woo_requests db1))
                = length (table_rows (t_woo_requests db)) + 1
            \<and> length (table_rows (t_email_audit_log db1))
                = length (table_rows (t_email_audit_log db)) + 5
         else table_rows (t_email_metadata db1) = table_rows (t_email_metadata db)
            \<and> table_rows (t_woo_requests db1) = table_rows (t_woo_requests db)
            \<and> table_rows (t_email_audit_log db1) = table_rows (t_email_audit_log db))
     \<and> table_rows (t_woo_email_matches db1) = table_rows (t_woo_email_matches db)
     \<and> snd (snd (init_database eng plan3 db1)) = db1"
proof -
  from init_loop_success [of eng plan 0 "[]" db r slept db1] assms(1)
  obtain k d0 where same: "same_rows db d0"
    and pass: "try_block eng (plan k) d0 = (None, db1)"
    by (auto simp: init_database_def max_retries_def)
  note first = successful_pass [OF pass]
  have ready: "schema_ready db1"
    by (rule first(1))
  have rows: "if table_rows (t_email_metadata db) = []
         then length (table_rows (t_email_metadata db1)) = 5
            \<and> length (table_rows (t_woo_requests db1))
                = length (table_rows (t_woo_requests db)) + 1
            \<and> length (table_rows (t_email_audit_log db1))
                = length (table_rows (t_email_audit_log db)) + 5
         else table_rows (t_email_metadata db1) = table_rows (t_email_metadata db)
            \<and> table_rows (t_woo_requests db1) = table_rows (t_woo_requests db)
            \<and> table_rows (t_email_audit_log db1) = table_rows (t_email_audit_log db)"
    using first(2) same by (simp add: same_rows_def)
  have matches: "table_rows (t_woo_email_matches db1) = table_rows (t_woo_email_matches db)"
    using first(3) same by (simp add: same_rows_def)
  have nonempty: "table_rows (t_email_metadata db1) \<noteq> []"
    using rows by (cases "table_rows (t_email_metadata db) = []") auto
  have "init_statements eng (plan2 0) db1 = (None, db1)"
    by (rule init_statements_ready(2) [OF ready nonempty assms(2)])
  then have "try_block eng (plan2 0) db1 = (None, db1)"
    by (intro try_block_ok) (simp_all add: assms(2))
  from init_loop_settles [of 0 eng plan2 db1, OF _ this]
  have second: "init_database eng plan2 db1 = (Inr (Some True), [], db1)"
    by (simp add: init_database_def max_retries_def)
  have "snd (try_block eng fault db1) = db1" for fault
    by (rule try_block_ready [OF ready nonempty])
  then have "snd (snd (init_loop eng plan3 0 [] db1)) = db1"
    by (rule init_loop_fixed)
  then have further: "snd (snd (init_database eng plan3 db1)) = db1"
    by (simp add: init_database_def)
  from second ready rows matches further show ?thesis by simp
qed

theorem schema_setup_twice_witness:
  "init_database demo_engine (\<lambda>i s. None) empty_database =
     (Inr (Some True), [], snd (init_statements demo_engine (\<lambda>s. None) empty_database))
   \<and> init_database demo_engine (\<lambda>i s. None)
        (snd (init_statements demo_engine (\<lambda>s. None) empty_database))
       = (Inr (Some True), [], snd (init_statements demo_engine (\<lambda>s. None) empty_database))
   \<and> length (table_rows (t_email_metadata
        (snd (init_statements demo_engine (\<lambda>s. None) empty_database)))) = 5
   \<and> length (table_rows (t_woo_requests
        (snd (init_statements demo_engine (\<lambda>s. None) empty_database)))) = 1
   \<and> length (table_rows (t_email_audit_log
        (snd (init_statements demo_engine (\<lambda>s. None) empty_database)))) = 5
   \<and> snd (snd (init_database demo_engine lock_wait_cancelled
        (snd (init_statements demo_engine (\<lambda>s. None) empty_database))))
       = snd (init_statements demo_engine (\<lambda>s. None) empty_database)"
  using schema_setup_twice [OF fresh_run, of "\<lambda>i s. None" lock_wait_cancelled] fresh_run
  by (simp add: empty_database_def table_rows_def)

text \<open>
  Claim C6. A request with classification \<^verbatim>\<open>all\<close> gives the same clause, the same
  parameters, the same response and the same database state as the request without a
  classification. Any other classification that passes the handler's test adds the
  condition \<^verbatim>\<open>classification = %s\<close> with that value as its parameter, after the other
  conditions; for a text, the rows that satisfy the request are then those of the request
  without classification whose label equals the text.
\<close>

theorem classification_all_is_omitted:
  "build_where (data(''classification'' \<mapsto> PStr ''all''))
     = build_where (data(''classification'' := None))
   \<and> search_emails eng flt db (Some (data(''classification'' \<mapsto> PStr ''all'')))
     = search_emails eng flt db (Some (data(''classification'' := None)))
   \<and> (truthy c \<and> c \<noteq> PStr ''all'' \<longrightarrow>
        build_conditions q df dt c =
          (fst (build_conditions q df dt PNone) @ [''classification = %s''],
           snd (build_conditions q df dt PNone) @ [c]))
   \<and> (s \<noteq> [] \<and> s \<noteq> ''all'' \<longrightarrow>
        satisfies eng (data(''classification'' \<mapsto> PStr s)) r =
          (satisfies eng (data(''classification'' := None)) r \<and> em_classification r = Some s))"
proof (intro conjI impI)
  show "build_where (data(''classification'' \<mapsto> PStr ''all''))
     = build_where (data(''classification'' := None))"
    by (simp add: build_where_def Let_def request_simps build_conditions_eq)
  show "search_emails eng flt db (Some (data(''classification'' \<mapsto> PStr ''all'')))
     = search_emails eng flt db (Some (data(''classification'' := None)))"
    by (rule search_emails_cong)
       (simp_all add: build_where_def Let_def request_simps build_conditions_eq)
  show "build_conditions q df dt c =
          (fst (build_conditions q df dt PNone) @ [''classification = %s''],
           snd (build_conditions q df dt PNone) @ [c])"
    if "truthy c \<and> c \<noteq> PStr ''all''"
    using that
    by (simp add: build_conditions_eq classification_applies_def classification_condition_def)
  show "satisfies eng (data(''classification'' \<mapsto> PStr s)) r =
          (satisfies eng (data(''classification'' := None)) r \<and> em_classification r = Some s)"
    if "s \<noteq> [] \<and> s \<noteq> ''all''"
    using that by (auto simp: satisfies_def request_simps classified_as_def)
qed

theorem classification_all_is_omitted_witness:
  "truthy (PStr ''intern'') \<and> PStr ''intern'' \<noteq> PStr ''all''
   \<and> build_conditions (PStr []) PNone PNone (PStr ''intern'')
       = ([''classification = %s''], [PStr ''intern''])
   \<and> ''intern'' \<noteq> [] \<and> ''intern'' \<noteq> ''all''
   \<and> satisfies demo_engine [''classification'' \<mapsto> PStr ''intern'']
        (demo_email 1 ''a@x.nl'' ''DMS plan'' (Some 1705311000000000) ''intern'')
   \<and> \<not> satisfies demo_engine [''classification'' \<mapsto> PStr ''intern'']
        (demo_email 3 ''c@x.nl'' ''Vragen'' None ''openbaar'')"
  using classification_all_is_omitted
    [of Map.empty demo_engine no_faults demo_database "PStr ''intern''" "PStr []" PNone PNone
       "''intern''" "demo_email 1 ''a@x.nl'' ''DMS plan'' (Some 1705311000000000) ''intern''"]
  by (simp add: build_conditions_eq satisfies_def request_simps classified_as_def demo_email_def)

text \<open>
  Claim C7, as the code has it. The retry follows the class of the exception, not the
  place where it is raised. A pass of the \<^verbatim>\<open>try\<close> block that ends in an
  \<open>OperationalError\<close>, raised by the connect, by a statement or by the commit, is followed
  by a sleep of 2 seconds and another pass, and there are at most 30 passes: when all 30
  end so, \<^verbatim>\<open>init_database\<close> has slept 29 times, raises the error, and the process ends
  before it serves; the rows of every table are as they were. When the first \<open>k\<close> passes
  end in an \<open>OperationalError\<close> and pass \<open>k\<close> ends otherwise (it succeeds, or raises an
  exception of another class), the run ends there, after \<open>k\<close> sleeps, with that outcome:
  no pass follows an exception of another class. A failure to connect ends the pass with
  its exception and the database untouched; so does a failure of the first statement
  after the connection is made. No statement raises an \<open>OperationalError\<close> on its own
  data: a pass that ends in one has met it from outside.
\<close>

theorem operational_errors_are_retried:
  "((\<forall>i. i < 30 \<longrightarrow> fst (attempt eng plan db i) = Some OperationalError) \<longrightarrow>
      init_database eng plan db =
        (Inl OperationalError, replicate 29 2, attempt_state eng plan db 30)
      \<and> same_rows db (attempt_state eng plan db 30)
      \<and> fst (main eng plan db) = Crashed OperationalError)
   \<and> (k < 30 \<and> (\<forall>i. i < k \<longrightarrow> fst (attempt eng plan db i) = Some OperationalError)
        \<and> attempt eng plan db k = (x, db') \<and> x \<noteq> Some OperationalError \<longrightarrow>
      init_database eng plan db =
        ((case x of None \<Rightarrow> Inr (Some True) | Some e \<Rightarrow> Inl e), replicate k 2, db')
      \<and> fst (main eng plan db) = (case x of None \<Rightarrow> Serving | Some e \<Rightarrow> Crashed e))
   \<and> (fault Connect = Some e \<longrightarrow> try_block eng fault d = (Some e, d))
   \<and> (fault Connect = None \<and> fault (CreateTable 0) = Some e \<longrightarrow>
        try_block eng fault d = (Some e, d))
   \<and> (fst (try_block eng fault d) = Some OperationalError \<longrightarrow>
        (\<exists>s. fault s = Some OperationalError))"
proof (intro conjI impI)
  assume all: "\<forall>i. i < 30 \<longrightarrow> fst (attempt eng plan db i) = Some OperationalError"
  have last: "try_block eng (plan 29) (attempt_state eng plan db 29)
      = (Some OperationalError, attempt_state eng plan db (Suc 29))"
    using all by (intro attempt_fails) simp
  have "init_loop eng plan 0 [] db =
      init_loop eng plan 29 (replicate 29 2) (attempt_state eng plan db 29)"
    using all by (intro init_loop_retry) (simp_all add: max_retries_def)
  also have "\<dots> = (Inl OperationalError, replicate 29 2, attempt_state eng plan db (Suc 29))"
    by (rule init_loop_last [where plan = plan and rc = 29, OF last])
       (simp add: max_retries_def)
  finally show r: "init_database eng plan db =
      (Inl OperationalError, replicate 29 2, attempt_state eng plan db 30)"
    by (simp add: init_database_def del: attempt_state.simps)
  show "same_rows db (attempt_state eng plan db 30)"
    by (rule attempt_state_rows [OF all])
  show "fst (main eng plan db) = Crashed OperationalError"
    by (simp add: main_def r del: attempt_state.simps)
next
  assume a: "k < 30 \<and> (\<forall>i. i < k \<longrightarrow> fst (attempt eng plan db i) = Some OperationalError)
        \<and> attempt eng plan db k = (x, db') \<and> x \<noteq> Some OperationalError"
  then have pass: "try_block eng (plan k) (attempt_state eng plan db k) = (x, db')"
    by (simp add: attempt_def)
  have "init_loop eng plan 0 [] db =
      init_loop eng plan k (replicate k 2) (attempt_state eng plan db k)"
    using a by (intro init_loop_retry) (simp_all add: max_retries_def)
  also have "\<dots> = ((case x of None \<Rightarrow> Inr (Some True) | Some e \<Rightarrow> Inl e), replicate k 2, db')"
    using a
    by (intro init_loop_settles [where plan = plan and rc = k, OF _ pass])
       (simp_all add: max_retries_def)
  finally show r: "init_database eng plan db =
        ((case x of None \<Rightarrow> Inr (Some True) | Some e \<Rightarrow> Inl e), replicate k 2, db')"
    by (simp add: init_database_def)
  show "fst (main eng plan db) = (case x of None \<Rightarrow> Serving | Some e \<Rightarrow> Crashed e)"
    by (cases x) (simp_all add: main_def r)
next
  assume "fault Connect = Some e"
  then show "try_block eng fault d = (Some e, d)"
    by (rule try_block_connect_fails)
next
  assume "fault Connect = None \<and> fault (CreateTable 0) = Some e"
  then show "try_block eng fault d = (Some e, d)"
    by (intro first_statement_fails) simp_all
next
  assume a: "fst (try_block eng fault d) = Some OperationalError"
  then have "try_block eng fault d = (Some OperationalError, snd (try_block eng fault d))"
    by (cases "try_block eng fault d") simp
  then show "\<exists>s. fault s = Some OperationalError"
    by (rule try_block_error)
qed

theorem operational_errors_are_retried_witness:
  "fst (init_database demo_engine server_down empty_database) = Inl OperationalError
   \<and> fst (snd (init_database demo_engine server_down empty_database)) = replicate 29 2
   \<and> fst (main demo_engine server_down empty_database) = Crashed OperationalError
   \<and> (1::nat) < 30
   \<and> attempt demo_engine count_fails empty_database 0
       = (Some OperationalError, empty_database)
   \<and> attempt demo_engine count_fails empty_database 1
       = (Some ProgrammingError, empty_database)
   \<and> Some ProgrammingError \<noteq> Some OperationalError
   \<and> init_database demo_engine count_fails empty_database
       = (Inl ProgrammingError, [2], empty_database)
   \<and> fst (main demo_engine count_fails empty_database) = Crashed ProgrammingError"
proof -
  have down: "fst (attempt demo_engine server_down empty_database i) = Some OperationalError"
    for i
    by (simp add: attempt_def try_block_def server_down_def)
  have a0: "attempt demo_engine count_fails empty_database 0
      = (Some OperationalError, empty_database)"
    by (simp add: attempt_def count_fails_pass)
  have a1: "attempt demo_engine count_fails empty_database 1
      = (Some ProgrammingError, empty_database)"
    by (simp add: attempt_def count_fails_pass)
  show ?thesis
    using operational_errors_are_retried
      [where eng = demo_engine and plan = server_down and db = empty_database and k = 0
         and x = None and db' = empty_database and fault = "\<lambda>s. None"
         and e = OperationalError and d = empty_database]
      operational_errors_are_retried
      [where eng = demo_engine and plan = count_fails and db = empty_database and k = 1
         and x = "Some ProgrammingError" and db' = empty_database and fault = "\<lambda>s. None"
         and e = OperationalError and d = empty_database]
      down a0 a1
    by simp
qed

text \<open>
  Claim C7 as stated fails. On the first pass the connection is made and the first
  \<^verbatim>\<open>CREATE INDEX\<close> is cancelled while it waits for a lock: an \<open>OperationalError\<close> that is no
  connection failure. It does not propagate: the run sleeps 2 seconds, makes a second
  pass and returns \<^verbatim>\<open>True\<close>.
\<close>

theorem statement_error_is_retried:
  "lock_wait_cancelled 0 Connect = None
   \<and> lock_wait_cancelled 0 (CreateIndex 0) = Some OperationalError
   \<and> try_block demo_engine (lock_wait_cancelled 0) empty_database
       = (Some OperationalError, empty_database)
   \<and> init_database demo_engine lock_wait_cancelled empty_database =
       (Inr (Some True), [2], snd (init_statements demo_engine (\<lambda>s. None) empty_database))
   \<and> fst (main demo_engine lock_wait_cancelled empty_database) = Serving"
  using cancelled_pass cancelled_run
  by (simp add: lock_wait_cancelled_def main_def)



text \<open>
  Claim C9. In the request body, the empty string for \<^verbatim>\<open>query\<close> gives the same response
  and the same database state as a body without \<^verbatim>\<open>query\<close>; the empty string for
  \<^verbatim>\<open>classification\<close> gives the same as a body without \<^verbatim>\<open>classification\<close>, and the same as
  the value \<^verbatim>\<open>all\<close>. The clause and the parameters are the same too.
\<close>

theorem empty_string_is_omitted:
  "search_emails eng flt db (Some (data(''query'' \<mapsto> PStr [])))
     = search_emails eng flt db (Some (data(''query'' := None)))
   \<and> build_where (data(''query'' \<mapsto> PStr [])) = build_where (data(''query'' := None))
   \<and> search_emails eng flt db (Some (data(''classification'' \<mapsto> PStr [])))
     = search_emails eng flt db (Some (data(''classification'' := None)))
   \<and> build_where (data(''classification'' \<mapsto> PStr []))
     = build_where (data(''classification'' := None))
   \<and> search_emails eng flt db (Some (data(''classification'' \<mapsto> PStr [])))
     = search_emails eng flt db (Some (data(''classification'' \<mapsto> PStr ''all'')))"
  by (intro conjI search_emails_cong)
     (simp_all add: build_where_def Let_def request_simps build_conditions_eq)




end
